theory Spec2Isabelle
  imports Main "HOL-Library.Sublist"
begin

section \<open>JavaScript string primitives used by the analysers\<close>

text \<open>
  Strings are lists of characters; \<open>length\<close> stands for \<open>.length\<close>. (JavaScript
  counts UTF-16 code units and a \<open>char\<close> is a byte, so the two agree on ASCII text.)
  \<open>str_includes s sub\<close> is \<open>s.includes(sub)\<close>, \<open>endsWith s suf\<close> is
  \<open>s.endsWith(suf)\<close>, \<open>startsWith s pre\<close> is \<open>s.startsWith(pre)\<close>.
\<close>

definition dq :: char where "dq = CHR 0x22"
definition sq :: char where "sq = CHR 0x27"

primrec str_includes :: "string \<Rightarrow> string \<Rightarrow> bool" where
  "str_includes [] sub = (sub = [])"
| "str_includes (c # cs) sub = (prefix sub (c # cs) \<or> str_includes cs sub)"

definition endsWith :: "string \<Rightarrow> string \<Rightarrow> bool" where
  "endsWith s suf = suffix suf s"

definition startsWith :: "string \<Rightarrow> string \<Rightarrow> bool" where
  "startsWith s pre = prefix pre s"

text \<open>
  \<open>s.replace(pat, rep)\<close> with a string pattern: only the first occurrence of
  \<open>pat\<close>, wherever it is, is replaced.
\<close>

fun replace_first :: "string \<Rightarrow> string \<Rightarrow> string \<Rightarrow> string" where
  "replace_first pat rep [] = (if pat = [] then rep else [])"
| "replace_first pat rep (c # cs) =
     (if prefix pat (c # cs) then rep @ drop (length pat) (c # cs)
      else c # replace_first pat rep cs)"

text \<open>
  \<open>s.split(sep)\<close> for a separator of one character; the empty string splits into
  one empty piece.
\<close>

fun split_on :: "char \<Rightarrow> string \<Rightarrow> string list" where
  "split_on sep [] = [[]]"
| "split_on sep (c # cs) =
     (if c = sep then [] # split_on sep cs
      else (case split_on sep cs of [] \<Rightarrow> [[c]] | t # ts \<Rightarrow> (c # t) # ts))"

text \<open>
  \<open>basename(path, ext)\<close> of Node's \<open>path\<close> module, for the paths the enumerator
  returns (relative, \<open>/\<close>-separated, no trailing slash): the last component, with
  \<open>ext\<close> removed when the component ends with it and is not \<open>ext\<close> itself; a path
  that is \<open>ext\<close> itself gives the empty string.
\<close>

definition basename :: "string \<Rightarrow> string \<Rightarrow> string" where
  "basename path ext =
     (let base = last (split_on CHR ''/'' path) in
      if ext \<noteq> [] \<and> length ext \<le> length path then
        (if ext = path then []
         else if suffix ext base \<and> base \<noteq> ext then take (length base - length ext) base
         else base)
      else base)"

text \<open>
  Character tests, by character code: ASCII white space (\<open>\s\<close>), word characters
  (\<open>\w\<close>), and the two cases of a letter.
\<close>

definition in_range :: "char \<Rightarrow> char \<Rightarrow> char \<Rightarrow> bool" where
  "in_range lo hi c = ((of_char lo :: int) \<le> of_char c \<and> (of_char c :: int) \<le> of_char hi)"

definition is_space :: "char \<Rightarrow> bool" where
  "is_space c = (c = CHR '' '' \<or> in_range (CHR 0x09) (CHR 0x0D) c)"

definition is_word :: "char \<Rightarrow> bool" where
  "is_word c = (in_range CHR ''a'' CHR ''z'' c \<or> in_range CHR ''A'' CHR ''Z'' c
                \<or> in_range CHR ''0'' CHR ''9'' c \<or> c = CHR ''_'')"

definition to_lower :: "char \<Rightarrow> char" where
  "to_lower c = (if in_range CHR ''A'' CHR ''Z'' c then char_of (of_char c + (32::int)) else c)"

definition to_upper :: "char \<Rightarrow> char" where
  "to_upper c = (if in_range CHR ''a'' CHR ''z'' c then char_of (of_char c - (32::int)) else c)"

definition toUpperCase :: "string \<Rightarrow> string" where
  "toUpperCase s = map to_upper s"

definition trim :: "string \<Rightarrow> string" where
  "trim s = rev (dropWhile is_space (rev (dropWhile is_space s)))"

text \<open>
  \<open>s.split(/\s+/)\<close>: every maximal run of white space is one separator, so white space
  at either end leaves an empty string there. \<open>in_ws\<close> says that the scan is inside a
  run, \<open>acc\<close> is the current piece, reversed.
\<close>

fun split_ws_from :: "bool \<Rightarrow> string \<Rightarrow> string \<Rightarrow> string list" where
  "split_ws_from in_ws acc [] = [rev acc]"
| "split_ws_from in_ws acc (c # cs) =
     (if is_space c
      then (if in_ws then split_ws_from True [] cs else rev acc # split_ws_from True [] cs)
      else split_ws_from False (c # acc) cs)"

definition split_ws :: "string \<Rightarrow> string list" where
  "split_ws s = split_ws_from False [] s"

text \<open>\<open>[...new Set(xs)]\<close>: the distinct elements, in the order of their first occurrence.\<close>

definition uniq :: "'a list \<Rightarrow> 'a list" where
  "uniq xs = fold (\<lambda>x acc. if x \<in> set acc then acc else acc @ [x]) xs []"

section \<open>Regular expressions\<close>

text \<open>
  The patterns of the source are kept as data and run by one backtracking matcher, so
  that each pattern below can be read against the regular expression literal it stands
  for. The constructors cover what the source's literals use: literal text, a
  character set (\<open>[...]\<close>, \<open>[^...]\<close>, \<open>\s\<close>, \<open>\w\<close>), the greedy \<open>*\<close> and
  \<open>+\<close> of a character set, a greedy optional group, alternation, sequence, a
  numbered capture group, the word boundary \<open>\b\<close> and \<open>^\<close>.
\<close>

datatype citem = CChar char | CRange char char | CSpace | CWord

datatype cset = Pos "citem list" | Neg "citem list"

datatype rx =
    Lit string
  | Set cset
  | Star cset
  | Plus cset
  | Opt rx
  | Alt "rx list"
  | Seq "rx list"
  | Grp nat rx
  | WordB
  | Bol

fun item_has :: "citem \<Rightarrow> char \<Rightarrow> bool" where
  "item_has (CChar x) c = (c = x)"
| "item_has (CRange lo hi) c = in_range lo hi c"
| "item_has CSpace c = is_space c"
| "item_has CWord c = is_word c"

text \<open>With the \<open>i\<close> flag (\<open>ic\<close>) a character is in a set when either of its cases is.\<close>

definition items_have :: "bool \<Rightarrow> citem list \<Rightarrow> char \<Rightarrow> bool" where
  "items_have ic its c =
     (if ic then list_ex (\<lambda>i. item_has i (to_lower c) \<or> item_has i (to_upper c)) its
      else list_ex (\<lambda>i. item_has i c) its)"

fun cset_has :: "bool \<Rightarrow> cset \<Rightarrow> char \<Rightarrow> bool" where
  "cset_has ic (Pos its) c = items_have ic its c"
| "cset_has ic (Neg its) c = (\<not> items_have ic its c)"

text \<open>
  A matcher state is the character before the current position (\<open>None\<close> at index 0),
  the text from the current position on, and the capture groups set so far.
\<close>

type_synonym mstate = "char option \<times> string \<times> (nat \<times> string) list"

fun lit_match :: "bool \<Rightarrow> string \<Rightarrow> char option \<Rightarrow> string \<Rightarrow> (char option \<times> string) option" where
  "lit_match ic [] p s = Some (p, s)"
| "lit_match ic (l # ls) p [] = None"
| "lit_match ic (l # ls) p (c # cs) =
     (if (if ic then to_lower c = to_lower l else c = l) then lit_match ic ls (Some c) cs
      else None)"

text \<open>The ways a greedy \<open>*\<close> can stop, the longest first.\<close>

fun spans :: "bool \<Rightarrow> cset \<Rightarrow> char option \<Rightarrow> string \<Rightarrow> (char option \<times> string) list" where
  "spans ic cs p [] = [(p, [])]"
| "spans ic cs p (c # s) =
     (if cset_has ic cs c then spans ic cs (Some c) s @ [(p, c # s)] else [(p, c # s)])"

definition at_word_boundary :: "char option \<Rightarrow> string \<Rightarrow> bool" where
  "at_word_boundary p s =
     ((case p of None \<Rightarrow> False | Some a \<Rightarrow> is_word a)
        \<noteq> (case s of [] \<Rightarrow> False | b # _ \<Rightarrow> is_word b))"

text \<open>
  \<open>run ic r st\<close> lists the states in which \<open>r\<close> can finish when it starts in
  \<open>st\<close>, in the order a backtracking matcher tries them; the head is the match that
  JavaScript reports.
\<close>

fun run :: "bool \<Rightarrow> rx \<Rightarrow> mstate \<Rightarrow> mstate list"
  and run_seq :: "bool \<Rightarrow> rx list \<Rightarrow> mstate \<Rightarrow> mstate list" where
  "run ic (Lit l) (p, s, g) =
     (case lit_match ic l p s of None \<Rightarrow> [] | Some (p', s') \<Rightarrow> [(p', s', g)])"
| "run ic (Set cs) (p, s, g) =
     (case s of [] \<Rightarrow> [] | c # s' \<Rightarrow> if cset_has ic cs c then [(Some c, s', g)] else [])"
| "run ic (Star cs) (p, s, g) = map (\<lambda>(p', s'). (p', s', g)) (spans ic cs p s)"
| "run ic (Plus cs) (p, s, g) =
     (case s of [] \<Rightarrow> []
      | c # s' \<Rightarrow> if cset_has ic cs c
                  then map (\<lambda>(p', s''). (p', s'', g)) (spans ic cs (Some c) s')
                  else [])"
| "run ic (Opt r) st = run ic r st @ [st]"
| "run ic (Alt rs) st = concat (map (\<lambda>r. run ic r st) rs)"
| "run ic (Seq rs) st = run_seq ic rs st"
| "run ic (Grp n r) (p, s, g) =
     map (\<lambda>(p', s', g'). (p', s', (n, take (length s - length s') s) # g'))
         (run ic r (p, s, g))"
| "run ic WordB (p, s, g) = (if at_word_boundary p s then [(p, s, g)] else [])"
| "run ic Bol (p, s, g) = (if p = None then [(p, s, g)] else [])"
| "run_seq ic [] st = [st]"
| "run_seq ic (r # rs) st = concat (map (run_seq ic rs) (run ic r st))"

record rmatch =
  m_text :: string
  m_groups :: "(nat \<times> string) list"

text \<open>\<open>match[n]\<close>: the text of capture group \<open>n\<close>, \<open>None\<close> for \<open>undefined\<close>.\<close>

definition group :: "rmatch \<Rightarrow> nat \<Rightarrow> string option" where
  "group m n = map_of (m_groups m) n"

text \<open>
  All matches of a pattern with the \<open>g\<close> flag, from left to right, each search starting
  where the last match ended: what \<open>content.matchAll(re)\<close>, \<open>content.match(re)\<close> and
  the loop \<open>while ((match = re.exec(content)) !== null)\<close> go through. After an empty
  match the search moves on by one character, as \<open>matchAll\<close> and \<open>match\<close> do; the
  patterns used in \<open>exec\<close> loops all begin with literal text and have no empty match.
\<close>

function matchAll :: "bool \<Rightarrow> rx \<Rightarrow> char option \<Rightarrow> string \<Rightarrow> rmatch list" where
  "matchAll ic r p s =
     (case run ic r (p, s, []) of
        [] \<Rightarrow> (case s of [] \<Rightarrow> [] | c # s' \<Rightarrow> matchAll ic r (Some c) s')
      | (p', s', g) # _ \<Rightarrow>
          \<lparr>m_text = take (length s - length s') s, m_groups = g\<rparr>
            # (if length s - length s' = 0
               then (case s of [] \<Rightarrow> [] | c # s'' \<Rightarrow> matchAll ic r (Some c) s'')
               else matchAll ic r p' s'))"
  by pat_completeness auto
termination
  by (relation "measure (\<lambda>(ic, r, p, s). length s)") auto

text \<open>\<open>matches re content\<close>: the matches of \<open>/re/g\<close>; \<open>matches_i\<close>: of \<open>/re/gi\<close>.\<close>

definition matches :: "rx \<Rightarrow> string \<Rightarrow> rmatch list" where
  "matches r content = matchAll False r None content"

definition matches_i :: "rx \<Rightarrow> string \<Rightarrow> rmatch list" where
  "matches_i r content = matchAll True r None content"

text \<open>\<open>re.test(content)\<close> and \<open>content.match(re)\<close> without \<open>g\<close>: the first match.\<close>

definition test :: "rx \<Rightarrow> string \<Rightarrow> bool" where
  "test r content = (matches r content \<noteq> [])"

definition test_i :: "rx \<Rightarrow> string \<Rightarrow> bool" where
  "test_i r content = (matches_i r content \<noteq> [])"

definition first_match :: "rx \<Rightarrow> string \<Rightarrow> rmatch option" where
  "first_match r content = (case matches r content of [] \<Rightarrow> None | m # _ \<Rightarrow> Some m)"

definition first_match_i :: "rx \<Rightarrow> string \<Rightarrow> rmatch option" where
  "first_match_i r content = (case matches_i r content of [] \<Rightarrow> None | m # _ \<Rightarrow> Some m)"

text \<open>Pieces that many of the source's patterns share.\<close>

definition ws :: rx where "ws = Star (Pos [CSpace])"                    \<comment> \<open>\<open>\s*\<close>\<close>
definition ws1 :: rx where "ws1 = Plus (Pos [CSpace])"                   \<comment> \<open>\<open>\s+\<close>\<close>
definition quote :: rx where "quote = Set (Pos [CChar dq, CChar sq])"     \<comment> \<open>\<open>["']\<close>\<close>
definition unquoted1 :: rx where "unquoted1 = Plus (Neg [CChar dq, CChar sq])"  \<comment> \<open>\<open>[^"']+\<close>\<close>
definition word0 :: rx where "word0 = Star (Pos [CWord])"                \<comment> \<open>\<open>\w*\<close>\<close>
definition word1 :: rx where "word1 = Plus (Pos [CWord])"                \<comment> \<open>\<open>\w+\<close>\<close>

section \<open>The project: manifest and file tree\<close>

text \<open>
  The manifest \<open>package.json\<close> as \<open>JSON.parse\<close> returns it: an object whose
  \<open>name\<close> and \<open>version\<close> are strings and whose \<open>dependencies\<close> and
  \<open>devDependencies\<close> map names to version strings, each of the four possibly missing.
  (A text that parses to something else than such an object is outside the type.)
\<close>

record manifest =
  m_name :: "string option"
  m_version :: "string option"
  m_dependencies :: "(string \<times> string) list option"
  m_devDependencies :: "(string \<times> string) list option"

text \<open>
  What reading and parsing \<open>package.json\<close> comes to: \<open>readFile\<close> throws
  (\<open>Unreadable\<close>, the file is absent), \<open>JSON.parse\<close> throws on the text
  (\<open>Unparsable\<close>), or both succeed.
\<close>

datatype package_file = Unreadable | Unparsable string | Parsed string manifest

text \<open>
  The project the server is started on. \<open>tree\<close> lists the regular files under the
  root in traversal order, each with what \<open>readFile(path, 'utf-8')\<close> does on it: it
  returns the text (\<open>Inr\<close>) or throws an error with a message (\<open>Inl\<close>).
  \<open>root\<close> is \<open>resolvedPath\<close>, \<open>now\<close> is \<open>new Date().toISOString()\<close>, and
  \<open>url_hostname\<close> is the platform's \<open>new URL(s).hostname\<close>, \<open>None\<close> where the
  constructor throws. \<open>fg_error patterns ignore\<close> is the error with which the call
  \<open>fg(patterns, {cwd, ignore, absolute: false})\<close> rejects on this project, \<open>None\<close>
  where it returns: fast-glob walks the directories under the root and passes on every
  error of the walk but that of a directory that is not there, so it rejects when it meets
  a directory that it cannot list.
\<close>

record env =
  root :: string
  now :: string
  package_json :: package_file
  tree :: "(string \<times> (string + string)) list"
  url_hostname :: "string \<Rightarrow> string option"
  fg_error :: "string list \<Rightarrow> string list \<Rightarrow> string option"

definition readFile :: "env \<Rightarrow> string \<Rightarrow> string + string" where
  "readFile e path =
     (case map_of (tree e) path of
        None \<Rightarrow> Inl (''ENOENT: no such file or directory, open '' @ path)
      | Some r \<Rightarrow> r)"

text \<open>The \<open>try { readFile; JSON.parse } catch\<close> block: \<open>packageInfo\<close> or a throw.\<close>

definition read_manifest :: "env \<Rightarrow> manifest option" where
  "read_manifest e =
     (case package_json e of Unreadable \<Rightarrow> None | Unparsable _ \<Rightarrow> None | Parsed _ m \<Rightarrow> Some m)"

subsection \<open>File enumeration\<close>

text \<open>
  \<open>fg(patterns, {cwd, ignore, absolute: false})\<close> is the fast-glob library. What it
  returns when its walk completes, \<open>fg_entries\<close>, is modelled on the file tree for the
  patterns the source passes: \<open>*\<close> stands for any run of characters inside one path
  component, \<open>**\<close> for any number of components, \<open>{a,b}\<close> for either alternative; a
  component that begins with a dot is matched only by a pattern component that begins
  with one, except in the \<open>ignore\<close> patterns. The result keeps the traversal order of
  the tree. The call itself, \<open>fg\<close>, rejects with the error of the walk where there is
  one (\<open>Inl\<close>) and returns the entries otherwise (\<open>Inr\<close>); every \<open>await fg(...)\<close> of
  an analyser stands inside its \<open>try\<close>.
\<close>

fun wild :: "string \<Rightarrow> string \<Rightarrow> bool" where
  "wild [] s = (s = [])"
| "wild (p # ps) s =
     (if p = CHR ''*''
      then (wild ps s \<or> (case s of [] \<Rightarrow> False | _ # s' \<Rightarrow> wild (p # ps) s'))
      else (case s of [] \<Rightarrow> False | c # s' \<Rightarrow> c = p \<and> wild ps s'))"

definition glob_seg :: "bool \<Rightarrow> string \<Rightarrow> string \<Rightarrow> bool" where
  "glob_seg dot pat seg = ((dot \<or> \<not> prefix ''.'' seg \<or> prefix ''.'' pat) \<and> wild pat seg)"

fun glob_path :: "bool \<Rightarrow> string list \<Rightarrow> string list \<Rightarrow> bool" where
  "glob_path dot [] ss = (ss = [])"
| "glob_path dot (p # ps) ss =
     (if p = ''**''
      then (glob_path dot ps ss
            \<or> (case ss of [] \<Rightarrow> False
                | s # ss' \<Rightarrow> (dot \<or> \<not> prefix ''.'' s) \<and> glob_path dot (p # ps) ss'))
      else (case ss of [] \<Rightarrow> False | s # ss' \<Rightarrow> glob_seg dot p s \<and> glob_path dot ps ss'))"

definition expand_braces :: "string \<Rightarrow> string list" where
  "expand_braces pat =
     (let pre = takeWhile (\<lambda>c. c \<noteq> CHR ''{'') pat;
          rest = dropWhile (\<lambda>c. c \<noteq> CHR ''{'') pat
      in case rest of
           [] \<Rightarrow> [pat]
         | _ # body \<Rightarrow>
             (let alts = takeWhile (\<lambda>c. c \<noteq> CHR ''}'') body;
                  post = drop 1 (dropWhile (\<lambda>c. c \<noteq> CHR ''}'') body)
              in map (\<lambda>a. pre @ a @ post) (split_on CHR '','' alts)))"

definition glob_match :: "bool \<Rightarrow> string \<Rightarrow> string \<Rightarrow> bool" where
  "glob_match dot pat path =
     list_ex (\<lambda>p. glob_path dot (split_on CHR ''/'' p) (split_on CHR ''/'' path))
             (expand_braces pat)"

definition fg_entries :: "string list \<Rightarrow> string list \<Rightarrow> env \<Rightarrow> string list" where
  "fg_entries patterns ignore e =
     filter (\<lambda>f. list_ex (\<lambda>p. glob_match False p f) patterns
                 \<and> \<not> list_ex (\<lambda>p. glob_match True p f) ignore)
            (map fst (tree e))"

definition fg :: "string list \<Rightarrow> string list \<Rightarrow> env \<Rightarrow> string + string list" where
  "fg patterns ignore e =
     (case fg_error e patterns ignore of
        Some err \<Rightarrow> Inl err
      | None \<Rightarrow> Inr (fg_entries patterns ignore e))"

definition std_ignore :: "string list" where
  "std_ignore = [''**/node_modules/**'', ''**/dist/**'', ''**/build/**'']"

text \<open>
  The loop \<open>for (const file of files) { content = await readFile(...); ... }\<close> that
  every file-reading analyser runs inside its \<open>try\<close>: \<open>body\<close> is the rest of the
  loop body, working on the analyser's local state. A \<open>readFile\<close> that throws ends the
  loop with the error (\<open>Inl\<close>), since no loop has a \<open>try\<close> of its own.
\<close>

fun for_files :: "env \<Rightarrow> string list \<Rightarrow> (string \<Rightarrow> string \<Rightarrow> 's \<Rightarrow> 's) \<Rightarrow> 's \<Rightarrow> string + 's" where
  "for_files e [] body st = Inr st"
| "for_files e (file # files) body st =
     (case readFile e file of
        Inl err \<Rightarrow> Inl err
      | Inr content \<Rightarrow> for_files e files body (body file content st))"

section \<open>Containers of the aggregation code\<close>

text \<open>
  A JavaScript \<open>Map\<close> keeps its keys in the order of their first insertion;
  \<open>set\<close> on a key that is present changes the value in place. It is an association list here: \<open>map_set\<close> is \<open>m.set(k, v)\<close>, \<open>get_or0\<close>
  is \<open>m.get(k) || 0\<close>, \<open>bump\<close> is \<open>m.set(k, (m.get(k) || 0) + n)\<close>, and the list
  itself is \<open>[...m.entries()]\<close>.
\<close>

fun map_set :: "'k \<Rightarrow> 'v \<Rightarrow> ('k \<times> 'v) list \<Rightarrow> ('k \<times> 'v) list" where
  "map_set k v [] = [(k, v)]"
| "map_set k v ((k', v') # m) = (if k' = k then (k, v) # m else (k', v') # map_set k v m)"

definition get_or0 :: "('k \<times> nat) list \<Rightarrow> 'k \<Rightarrow> nat" where
  "get_or0 m k = (case map_of m k of None \<Rightarrow> 0 | Some n \<Rightarrow> n)"

definition bump :: "'k \<Rightarrow> nat \<Rightarrow> ('k \<times> nat) list \<Rightarrow> ('k \<times> nat) list" where
  "bump k n m = map_set k (get_or0 m k + n) m"

text \<open>
  \<open>xs.sort(cmp)\<close>: the sort of an array is stable, so with a comparator that is an
  ordering of keys the result is the stable sorting of \<open>xs\<close>, which insertion from the
  right computes. \<open>by_count_desc\<close> is the comparator \<open>(a, b) => b[1] - a[1]\<close>.
\<close>

fun insert_by :: "('a \<Rightarrow> 'a \<Rightarrow> int) \<Rightarrow> 'a \<Rightarrow> 'a list \<Rightarrow> 'a list" where
  "insert_by cmp x [] = [x]"
| "insert_by cmp x (y # ys) = (if cmp x y \<le> 0 then x # y # ys else y # insert_by cmp x ys)"

definition js_sort :: "('a \<Rightarrow> 'a \<Rightarrow> int) \<Rightarrow> 'a list \<Rightarrow> 'a list" where
  "js_sort cmp xs = foldr (insert_by cmp) xs []"

definition by_count_desc :: "'k \<times> nat \<Rightarrow> 'k \<times> nat \<Rightarrow> int" where
  "by_count_desc a b = int (snd b) - int (snd a)"

text \<open>
  A plain object \<open>{}\<close> used as a counter table, \<open>obj[k] = (obj[k] || 0) + 1\<close>, is not
  a \<open>Map\<close>. Reading a key that the object does not have itself gives what
  \<open>Object.prototype\<close> has under that name; that value is truthy, and \<open>+ 1\<close> makes
  the string of its text followed by \<open>1\<close>, which is stored and gets one more \<open>1\<close> at
  every later increment. \<open>inherited\<close> is that text for the names of
  \<open>Object.prototype\<close>, all of them built-in functions but \<open>__proto__\<close>, under which
  an assignment of a string stores nothing. The keys of an object come out with the
  array indices first, in ascending order, and then the other keys in the order of their
  first assignment: \<open>obj_put\<close> is \<open>obj[k] = v\<close>, \<open>obj_count\<close> the whole statement.
\<close>

datatype jsvalue = Num nat | Str string

definition inherited :: "string \<Rightarrow> string option" where
  "inherited k =
     (if k = ''constructor'' then Some ''function Object() { [native code] }''
      else if k \<in> set [''__defineGetter__'', ''__defineSetter__'', ''hasOwnProperty'',
                        ''__lookupGetter__'', ''__lookupSetter__'', ''isPrototypeOf'',
                        ''propertyIsEnumerable'', ''toString'', ''valueOf'', ''toLocaleString'']
        then Some (''function '' @ k @ ''() { [native code] }'')
      else None)"

definition index_of :: "string \<Rightarrow> int" where
  "index_of k = foldl (\<lambda>n c. 10 * n + (of_char c - 48)) 0 k"

definition is_index :: "string \<Rightarrow> bool" where
  "is_index k =
     (k \<noteq> [] \<and> list_all (in_range CHR ''0'' CHR ''9'') k
      \<and> (length k = 1 \<or> hd k \<noteq> CHR ''0'') \<and> index_of k < 4294967295)"

fun obj_put :: "string \<Rightarrow> 'v \<Rightarrow> (string \<times> 'v) list \<Rightarrow> (string \<times> 'v) list" where
  "obj_put k v [] = [(k, v)]"
| "obj_put k v ((k', v') # obj) =
     (if k' = k then (k, v) # obj
      else if is_index k \<and> (\<not> is_index k' \<or> index_of k < index_of k')
        then (k, v) # (k', v') # obj
      else (k', v') # obj_put k v obj)"

definition obj_count :: "string \<Rightarrow> (string \<times> jsvalue) list \<Rightarrow> (string \<times> jsvalue) list" where
  "obj_count k obj =
     (case map_of obj k of
        Some (Num n) \<Rightarrow> obj_put k (Num (n + 1)) obj
      | Some (Str t) \<Rightarrow> obj_put k (Str (t @ ''1'')) obj
      | None \<Rightarrow>
          if k = ''__proto__'' then obj
          else (case inherited k of
                  Some t \<Rightarrow> obj_put k (Str (t @ ''1'')) obj
                | None \<Rightarrow> obj_put k (Num 1) obj))"

section \<open>Tool: analyze\_project\<close>

record project_report =
  ap_projectPath :: string
  ap_packageName :: string
  ap_packageVersion :: string
  ap_totalFiles :: nat
  ap_tsx :: nat
  ap_jsx :: nat
  ap_ts :: nat
  ap_js :: nat
  ap_hasReact :: bool
  ap_hasTypeScript :: bool
  ap_hasVite :: bool
  ap_hasNext :: bool
  ap_hasTailwind :: bool
  ap_hasSupabase :: bool
  ap_timestamp :: string

text \<open>\<open>packageInfo?.name || 'Unknown'\<close>: a missing or empty string gives the default.\<close>

definition or_unknown :: "string option \<Rightarrow> string" where
  "or_unknown v = (case v of None \<Rightarrow> ''Unknown'' | Some t \<Rightarrow> if t = [] then ''Unknown'' else t)"

text \<open>\<open>!!deps?.[k]\<close>: the key is there and its version string is not empty.\<close>

definition dep_truthy :: "(string \<times> string) list option \<Rightarrow> string \<Rightarrow> bool" where
  "dep_truthy deps k =
     (case deps of None \<Rightarrow> False
      | Some d \<Rightarrow> (case map_of d k of None \<Rightarrow> False | Some v \<Rightarrow> v \<noteq> []))"

text \<open>\<open>!!(packageInfo?.dependencies?.[k] || packageInfo?.devDependencies?.[k])\<close>\<close>

definition has_dep :: "manifest option \<Rightarrow> string \<Rightarrow> bool" where
  "has_dep packageInfo k =
     (case packageInfo of None \<Rightarrow> False
      | Some m \<Rightarrow> dep_truthy (m_dependencies m) k \<or> dep_truthy (m_devDependencies m) k)"

definition analyzeProject :: "env \<Rightarrow> string + project_report" where
  "analyzeProject e =
     (let packageInfo = read_manifest e in
      case fg [''**/*.{tsx,jsx,ts,js}''] std_ignore e
      of Inl err \<Rightarrow> Inl err
       | Inr files \<Rightarrow>
           Inr \<lparr>ap_projectPath = root e,
                ap_packageName =
                  or_unknown (case packageInfo of None \<Rightarrow> None | Some m \<Rightarrow> m_name m),
                ap_packageVersion =
                  or_unknown (case packageInfo of None \<Rightarrow> None | Some m \<Rightarrow> m_version m),
                ap_totalFiles = length files,
                ap_tsx = length (filter (\<lambda>f. endsWith f ''.tsx'') files),
                ap_jsx = length (filter (\<lambda>f. endsWith f ''.jsx'') files),
                ap_ts = length (filter (\<lambda>f. endsWith f ''.ts'') files),
                ap_js = length (filter (\<lambda>f. endsWith f ''.js'') files),
                ap_hasReact = has_dep packageInfo ''react'',
                ap_hasTypeScript = has_dep packageInfo ''typescript'',
                ap_hasVite = has_dep packageInfo ''vite'',
                ap_hasNext = has_dep packageInfo ''next'',
                ap_hasTailwind = has_dep packageInfo ''tailwindcss'',
                ap_hasSupabase = has_dep packageInfo ''@supabase/supabase-js'',
                ap_timestamp = now e\<rparr>)"

section \<open>Tool: get\_components\<close>

record component =
  c_path :: string
  c_name :: string
  c_size :: nat
  c_hasDefaultExport :: bool
  c_hasNamedExports :: bool
  c_hasJSX :: bool
  c_hasProps :: bool
  c_hasState :: bool
  c_hasEffects :: bool
  c_isComponent :: bool

record components_report =
  gc_totalComponents :: nat
  gc_analyzed :: nat
  gc_components :: "component list"

definition rx_export_default :: rx where          \<comment> \<open>\<open>/export\s+default/\<close>\<close>
  "rx_export_default = Seq [Lit ''export'', ws1, Lit ''default'']"

definition rx_named_export :: rx where
  \<comment> \<open>\<open>/export\s+(?:const|function|class|interface|type)/\<close>\<close>
  "rx_named_export =
     Seq [Lit ''export'', ws1,
          Alt [Lit ''const'', Lit ''function'', Lit ''class'', Lit ''interface'', Lit ''type'']]"

definition rx_props :: rx where                   \<comment> \<open>\<open>/(?:props|Props)/\<close>\<close>
  "rx_props = Alt [Lit ''props'', Lit ''Props'']"

definition rx_state :: rx where                   \<comment> \<open>\<open>/(?:useState|setState|state)/\<close>\<close>
  "rx_state = Alt [Lit ''useState'', Lit ''setState'', Lit ''state'']"

definition rx_useEffect :: rx where               \<comment> \<open>\<open>/useEffect/\<close>\<close>
  "rx_useEffect = Lit ''useEffect''"

definition rx_is_component :: rx where
  \<comment> \<open>\<open>/export\s+(?:default\s+)?(?:function|const|class)/\<close>\<close>
  "rx_is_component =
     Seq [Lit ''export'', ws1, Opt (Seq [Lit ''default'', ws1]),
          Alt [Lit ''function'', Lit ''const'', Lit ''class'']]"

text \<open>\<open>basename(file, '.tsx').replace('.jsx', '')\<close>\<close>

definition componentName :: "string \<Rightarrow> string" where
  "componentName file = replace_first ''.jsx'' [] (basename file ''.tsx'')"

definition component_of :: "string \<Rightarrow> string \<Rightarrow> component" where
  "component_of file content =
     \<lparr>c_path = file,
      c_name = componentName file,
      c_size = length content,
      c_hasDefaultExport = test rx_export_default content,
      c_hasNamedExports = test rx_named_export content,
      c_hasJSX = (str_includes content ''<'' \<and> str_includes content ''>''),
      c_hasProps = test rx_props content,
      c_hasState = test rx_state content,
      c_hasEffects = test rx_useEffect content,
      c_isComponent = test rx_is_component content\<rparr>"

definition getComponents :: "env \<Rightarrow> string + components_report" where
  "getComponents e =
     (case fg [''**/*.{tsx,jsx}''] std_ignore e
      of Inl err \<Rightarrow> Inl err
       | Inr componentFiles \<Rightarrow>
           (case for_files e (take 20 componentFiles)
                   (\<lambda>file content components. components @ [component_of file content]) []
            of Inl err \<Rightarrow> Inl err
             | Inr components \<Rightarrow>
                 Inr \<lparr>gc_totalComponents = length componentFiles,
                      gc_analyzed = length components,
                      gc_components = components\<rparr>))"

section \<open>Tool: get\_routing\_structure\<close>

record route =
  r_path :: string
  r_file :: string
  r_component :: string
  r_isProtected :: bool

record routing_report =
  rs_routingFiles :: "string list"
  rs_routes :: "route list"
  rs_totalRoutes :: nat
  rs_hasReactRouter :: bool

text \<open>\<open>match[n]\<close> of a group that every match of its pattern sets.\<close>

definition grp :: "rmatch \<Rightarrow> nat \<Rightarrow> string" where
  "grp m n = (case group m n of None \<Rightarrow> [] | Some t \<Rightarrow> t)"

definition rx_route_path :: rx where           \<comment> \<open>\<open>/path\s*[:=]\s*["']([^"']+)["']/g\<close>\<close>
  "rx_route_path =
     Seq [Lit ''path'', ws, Set (Pos [CChar CHR '':'', CChar CHR ''='']), ws,
          quote, Grp 1 unquoted1, quote]"

definition rx_route_route :: rx where          \<comment> \<open>\<open>/route\s*[:=]\s*["']([^"']+)["']/g\<close>\<close>
  "rx_route_route =
     Seq [Lit ''route'', ws, Set (Pos [CChar CHR '':'', CChar CHR ''='']), ws,
          quote, Grp 1 unquoted1, quote]"

definition rx_route_jsx :: rx where    \<comment> \<open>\<open>/<Route[^>]+path\s*=\s*["']([^"']+)["']/g\<close>\<close>
  "rx_route_jsx =
     Seq [Lit ''<Route'', Plus (Neg [CChar CHR ''>'']), Lit ''path'', ws, Lit ''='', ws,
          quote, Grp 1 unquoted1, quote]"

definition rx_route_object :: rx where     \<comment> \<open>\<open>/\{\s*path\s*:\s*["']([^"']+)["']/g\<close>\<close>
  "rx_route_object =
     Seq [Lit ''{'', ws, Lit ''path'', ws, Lit '':'', ws, quote, Grp 1 unquoted1, quote]"

definition routePatterns :: "rx list" where
  "routePatterns = [rx_route_path, rx_route_route, rx_route_jsx, rx_route_object]"

definition rx_protected :: rx where               \<comment> \<open>\<open>/protected|private|auth/i\<close>\<close>
  "rx_protected = Alt [Lit ''protected'', Lit ''private'', Lit ''auth'']"

text \<open>The two nested loops over the patterns and over the matches of each.\<close>

definition routes_of :: "string \<Rightarrow> string \<Rightarrow> route list" where
  "routes_of file content =
     concat (map (\<lambda>pattern.
                    map (\<lambda>m. \<lparr>r_path = grp m 1,
                              r_file = file,
                              r_component = replace_first ''.jsx'' [] (basename file ''.tsx''),
                              r_isProtected = test_i rx_protected content\<rparr>)
                        (matches pattern content))
                 routePatterns)"

definition getRoutingStructure :: "env \<Rightarrow> string + routing_report" where
  "getRoutingStructure e =
     (case fg [''**/router*.{ts,tsx,js,jsx}'', ''**/routes*.{ts,tsx,js,jsx}'',
               ''**/App.{ts,tsx,js,jsx}'', ''**/main.{ts,tsx,js,jsx}'',
               ''**/index.{ts,tsx,js,jsx}''] std_ignore e
      of Inl err \<Rightarrow> Inl err
       | Inr routingFiles \<Rightarrow>
           (case for_files e routingFiles
                   (\<lambda>file content routes. routes @ routes_of file content) []
            of Inl err \<Rightarrow> Inl err
             | Inr routes \<Rightarrow>
                 Inr \<lparr>rs_routingFiles = routingFiles,
                      rs_routes = take 20 routes,
                      rs_totalRoutes = length routes,
                      rs_hasReactRouter =
                        list_ex (\<lambda>r. str_includes (r_path r) ''/'') routes\<rparr>))"

section \<open>Dependency categorisation (analyzeDependencies)\<close>

record pkg =
  pkg_name :: string
  pkg_version :: string

text \<open>The \<open>categories\<close> object literal: ten arrays, all empty at the start.\<close>

record categories =
  cat_react :: "pkg list"
  cat_ui :: "pkg list"
  cat_state :: "pkg list"
  cat_routing :: "pkg list"
  cat_styling :: "pkg list"
  cat_database :: "pkg list"
  cat_build :: "pkg list"
  cat_testing :: "pkg list"
  cat_utilities :: "pkg list"
  cat_other :: "pkg list"

definition empty_categories :: categories where
  "empty_categories =
     \<lparr>cat_react = [], cat_ui = [], cat_state = [], cat_routing = [], cat_styling = [],
      cat_database = [], cat_build = [], cat_testing = [], cat_utilities = [], cat_other = []\<rparr>"

text \<open>
  \<open>categorizePackage\<close> pushes the package onto one array of the shared \<open>categories\<close>
  object; the object is passed in and returned. The chain of tests is the source's.
\<close>

definition categorizePackage :: "string \<Rightarrow> string \<Rightarrow> categories \<Rightarrow> categories" where
  "categorizePackage name version cats =
     (let p = \<lparr>pkg_name = name, pkg_version = version\<rparr> in
      if str_includes name ''react'' \<or> str_includes name ''@types/react''
        then cats\<lparr>cat_react := cat_react cats @ [p]\<rparr>
      else if str_includes name ''ui'' \<or> str_includes name ''component'' \<or> str_includes name ''material''
              \<or> str_includes name ''ant'' \<or> str_includes name ''chakra''
        then cats\<lparr>cat_ui := cat_ui cats @ [p]\<rparr>
      else if str_includes name ''redux'' \<or> str_includes name ''zustand'' \<or> str_includes name ''jotai''
              \<or> str_includes name ''recoil''
        then cats\<lparr>cat_state := cat_state cats @ [p]\<rparr>
      else if str_includes name ''router'' \<or> str_includes name ''navigation'' \<or> str_includes name ''reach''
        then cats\<lparr>cat_routing := cat_routing cats @ [p]\<rparr>
      else if str_includes name ''styled'' \<or> str_includes name ''emotion'' \<or> str_includes name ''tailwind''
              \<or> str_includes name ''css'' \<or> str_includes name ''sass''
        then cats\<lparr>cat_styling := cat_styling cats @ [p]\<rparr>
      else if str_includes name ''supabase'' \<or> str_includes name ''prisma'' \<or> str_includes name ''mongoose''
              \<or> str_includes name ''firebase''
        then cats\<lparr>cat_database := cat_database cats @ [p]\<rparr>
      else if str_includes name ''vite'' \<or> str_includes name ''webpack'' \<or> str_includes name ''rollup''
              \<or> str_includes name ''babel'' \<or> str_includes name ''esbuild''
        then cats\<lparr>cat_build := cat_build cats @ [p]\<rparr>
      else if str_includes name ''test'' \<or> str_includes name ''jest'' \<or> str_includes name ''vitest''
              \<or> str_includes name ''cypress'' \<or> str_includes name ''playwright''
        then cats\<lparr>cat_testing := cat_testing cats @ [p]\<rparr>
      else if str_includes name ''lodash'' \<or> str_includes name ''axios'' \<or> str_includes name ''dayjs''
              \<or> str_includes name ''uuid'' \<or> str_includes name ''clsx''
        then cats\<lparr>cat_utilities := cat_utilities cats @ [p]\<rparr>
      else cats\<lparr>cat_other := cat_other cats @ [p]\<rparr>)"

record frameworks =
  fw_hasReact :: bool
  fw_hasNext :: bool
  fw_hasVite :: bool
  fw_hasTailwind :: bool
  fw_hasSupabase :: bool
  fw_hasTypeScript :: bool

record dependencies_report =
  ad_totalDependencies :: nat
  ad_totalDevDependencies :: nat
  ad_categories :: categories
  ad_frameworks :: frameworks

text \<open>
  Without a manifest the inner \<open>catch\<close> returns the error object
  \<open>{ error: 'No package.json found' }\<close>. \<open>or_empty\<close> is
  \<open>packageInfo.dependencies || {}\<close>; the two \<open>forEach\<close> calls run
  \<open>categorizePackage\<close> over the entries of both mappings on the same \<open>categories\<close>.
\<close>

definition or_empty :: "(string \<times> string) list option \<Rightarrow> (string \<times> string) list" where
  "or_empty deps = (case deps of None \<Rightarrow> [] | Some d \<Rightarrow> d)"

definition analyzeDependencies :: "env \<Rightarrow> string + dependencies_report" where
  "analyzeDependencies e =
     (case read_manifest e of
        None \<Rightarrow> Inl ''No package.json found''
      | Some packageInfo \<Rightarrow>
          (let dependencies = or_empty (m_dependencies packageInfo);
               devDependencies = or_empty (m_devDependencies packageInfo);
               cats1 = fold (\<lambda>(name, version). categorizePackage name version)
                            dependencies empty_categories;
               cats2 = fold (\<lambda>(name, version). categorizePackage name version)
                            devDependencies cats1
           in Inr \<lparr>ad_totalDependencies = length dependencies,
                   ad_totalDevDependencies = length devDependencies,
                   ad_categories = cats2,
                   ad_frameworks =
                     \<lparr>fw_hasReact = dep_truthy (Some dependencies) ''react'',
                      fw_hasNext = dep_truthy (Some dependencies) ''next'',
                      fw_hasVite = (dep_truthy (Some dependencies) ''vite''
                                    \<or> dep_truthy (Some devDependencies) ''vite''),
                      fw_hasTailwind = (dep_truthy (Some dependencies) ''tailwindcss''
                                        \<or> dep_truthy (Some devDependencies) ''tailwindcss''),
                      fw_hasSupabase = dep_truthy (Some dependencies) ''@supabase/supabase-js'',
                      fw_hasTypeScript = (dep_truthy (Some devDependencies) ''typescript''
                                          \<or> dep_truthy (Some dependencies) ''typescript'')\<rparr>\<rparr>))"

subsection \<open>The rule list as the specification words it\<close>

datatype category =
  React | Ui | State | Routing | Styling | Database | Build | Testing | Utilities | Other

text \<open>The array of the \<open>categories\<close> object that belongs to a category.\<close>

fun bucket :: "category \<Rightarrow> categories \<Rightarrow> pkg list" where
  "bucket React = cat_react"
| "bucket Ui = cat_ui"
| "bucket State = cat_state"
| "bucket Routing = cat_routing"
| "bucket Styling = cat_styling"
| "bucket Database = cat_database"
| "bucket Build = cat_build"
| "bucket Testing = cat_testing"
| "bucket Utilities = cat_utilities"
| "bucket Other = cat_other"

text \<open>
  The specification's reading: an ordered list of rules, each a category with the
  substrings that select it; the first rule with a substring occurring in the name wins,
  and a name that no rule selects falls to \<open>Other\<close>.
\<close>

definition spec_rules :: "(category \<times> string list) list" where
  "spec_rules =
     [(React, [''react'', ''@types/react'']),
      (Ui, [''ui'', ''component'', ''material'', ''ant'', ''chakra'']),
      (State, [''redux'', ''zustand'', ''jotai'', ''recoil'']),
      (Routing, [''router'', ''navigation'', ''reach'']),
      (Styling, [''styled'', ''emotion'', ''tailwind'', ''css'', ''sass'']),
      (Database, [''supabase'', ''prisma'', ''mongoose'', ''firebase'']),
      (Build, [''vite'', ''webpack'', ''rollup'', ''babel'', ''esbuild'']),
      (Testing, [''test'', ''jest'', ''vitest'', ''cypress'', ''playwright'']),
      (Utilities, [''lodash'', ''axios'', ''dayjs'', ''uuid'', ''clsx''])]"

fun spec_first_match :: "(category \<times> string list) list \<Rightarrow> string \<Rightarrow> category" where
  "spec_first_match [] name = Other"
| "spec_first_match ((c, subs) # rules) name =
     (if list_ex (str_includes name) subs then c else spec_first_match rules name)"

section \<open>Tool: get\_tailwind\_usage\<close>

record tw_file =
  twf_file :: string
  twf_uniqueClasses :: nat
  twf_totalClasses :: nat
  twf_topClasses :: "string list"

record tw_patterns =
  twp_layout :: "(string \<times> nat) list"
  twp_colors :: "(string \<times> nat) list"
  twp_typography :: "(string \<times> nat) list"
  twp_responsive :: "(string \<times> nat) list"

record tailwind_report =
  tw_totalFiles :: nat
  tw_analyzedFiles :: nat
  tw_totalUniqueClasses :: nat
  tw_mostUsedClasses :: "(string \<times> nat) list"
  tw_patterns :: tw_patterns
  tw_fileUsage :: "tw_file list"

definition rx_className :: rx where          \<comment> \<open>\<open>/className\s*=\s*["']([^"']+)["']/g\<close>\<close>
  "rx_className = Seq [Lit ''className'', ws, Lit ''='', ws, quote, Grp 1 unquoted1, quote]"

definition rx_className_braced :: rx where
  \<comment> \<open>\<open>/className\s*=\s*{[^}]*["']([^"']+)["'][^}]*}/g\<close>\<close>
  "rx_className_braced =
     Seq [Lit ''className'', ws, Lit ''='', ws, Lit ''{'', Star (Neg [CChar CHR ''}'']),
          quote, Grp 1 unquoted1, quote, Star (Neg [CChar CHR ''}'']), Lit ''}'']"

definition rx_class :: rx where                  \<comment> \<open>\<open>/class\s*=\s*["']([^"']+)["']/g\<close>\<close>
  "rx_class = Seq [Lit ''class'', ws, Lit ''='', ws, quote, Grp 1 unquoted1, quote]"

text \<open>\<open>classMatches\<close>: the matches of the three patterns, one pattern after the other.\<close>

definition classMatches :: "string \<Rightarrow> rmatch list" where
  "classMatches content =
     matches rx_className content @ matches rx_className_braced content
       @ matches rx_class content"

text \<open>\<open>match[1]?.split(/\s+/) || []\<close>\<close>

definition classes_of :: "rmatch \<Rightarrow> string list" where
  "classes_of m = (case group m 1 of None \<Rightarrow> [] | Some t \<Rightarrow> split_ws t)"

text \<open>The callback of \<open>classes.forEach\<close>, on the map \<open>classUsage\<close>.\<close>

definition count_class :: "string \<Rightarrow> (string \<times> nat) list \<Rightarrow> (string \<times> nat) list" where
  "count_class cls classUsage =
     (if trim cls \<noteq> [] \<and> length cls > 0 then bump cls 1 classUsage else classUsage)"

text \<open>
  The body of \<open>for (const match of classMatches)\<close>, on the pair of the file's
  \<open>classNames\<close> and the map \<open>classUsage\<close>.
\<close>

fun tw_match :: "rmatch \<Rightarrow> string list \<times> (string \<times> nat) list
                   \<Rightarrow> string list \<times> (string \<times> nat) list" where
  "tw_match m (classNames, classUsage) =
     (classNames @ classes_of m, fold count_class (classes_of m) classUsage)"

text \<open>
  The end of the loop body, \<open>if (classNames.length > 0) fileUsage.push(...)\<close>, given
  what the loop over the matches left.
\<close>

fun tw_push :: "string \<Rightarrow> tw_file list \<Rightarrow> string list \<times> (string \<times> nat) list
                  \<Rightarrow> (string \<times> nat) list \<times> tw_file list" where
  "tw_push file fileUsage (classNames, classUsage) =
     (classUsage,
      if length classNames > 0
      then fileUsage @ [\<lparr>twf_file = file,
                         twf_uniqueClasses = length (uniq classNames),
                         twf_totalClasses = length classNames,
                         twf_topClasses = take 10 (uniq classNames)\<rparr>]
      else fileUsage)"

text \<open>The body of the loop over the files, on the pair \<open>(classUsage, fileUsage)\<close>.\<close>

fun tw_body :: "string \<Rightarrow> string \<Rightarrow> (string \<times> nat) list \<times> tw_file list
                  \<Rightarrow> (string \<times> nat) list \<times> tw_file list" where
  "tw_body file content (classUsage, fileUsage) =
     tw_push file fileUsage (fold tw_match (classMatches content) ([], classUsage))"

definition tw_prefixes_layout :: "string list" where
  "tw_prefixes_layout =
     [''flex'', ''grid'', ''block'', ''inline'', ''hidden'', ''w-'', ''h-'', ''p-'', ''m-'',
      ''space-'', ''gap-'']"

definition tw_prefixes_colors :: "string list" where
  "tw_prefixes_colors = [''bg-'', ''text-'', ''border-'', ''from-'', ''to-'', ''via-'']"

definition tw_prefixes_typography :: "string list" where
  "tw_prefixes_typography =
     [''text-'', ''font-'', ''leading-'', ''tracking-'', ''uppercase'', ''lowercase'']"

definition tw_prefixes_responsive :: "string list" where
  "tw_prefixes_responsive = [''sm:'', ''md:'', ''lg:'', ''xl:'', ''2xl:'']"

text \<open>\<open>/^(a|b|...)/.test(cls)\<close> for literal alternatives.\<close>

definition test_prefixes :: "string list \<Rightarrow> string \<Rightarrow> bool" where
  "test_prefixes alts cls = test (Seq [Bol, Grp 1 (Alt (map Lit alts))]) cls"

definition sortedClasses :: "(string \<times> nat) list \<Rightarrow> (string \<times> nat) list" where
  "sortedClasses classUsage = take 30 (js_sort by_count_desc classUsage)"

text \<open>What follows the loop: the ranking, the pattern buckets and the report.\<close>

fun tw_report :: "nat \<Rightarrow> (string \<times> nat) list \<times> tw_file list \<Rightarrow> tailwind_report" where
  "tw_report totalFiles (classUsage, fileUsage) =
     (let sorted = sortedClasses classUsage;
          layout = filter (\<lambda>(cls, _). test_prefixes tw_prefixes_layout cls) sorted;
          colors = filter (\<lambda>(cls, _). test_prefixes tw_prefixes_colors cls) sorted;
          typography = filter (\<lambda>(cls, _). test_prefixes tw_prefixes_typography cls) sorted;
          responsive = filter (\<lambda>(cls, _). test_prefixes tw_prefixes_responsive cls) sorted
      in \<lparr>tw_totalFiles = totalFiles,
          tw_analyzedFiles = length fileUsage,
          tw_totalUniqueClasses = length classUsage,
          tw_mostUsedClasses = sorted,
          tw_patterns = \<lparr>twp_layout = take 10 layout,
                         twp_colors = take 10 colors,
                         twp_typography = take 10 typography,
                         twp_responsive = take 10 responsive\<rparr>,
          tw_fileUsage = take 10 fileUsage\<rparr>)"

definition getTailwindUsage :: "env \<Rightarrow> string + tailwind_report" where
  "getTailwindUsage e =
     (case fg [''**/*.{tsx,jsx,ts,js}''] std_ignore e
      of Inl err \<Rightarrow> Inl err
       | Inr sourceFiles \<Rightarrow>
           (case for_files e (take 50 sourceFiles) tw_body ([], [])
            of Inl err \<Rightarrow> Inl err
             | Inr st \<Rightarrow> Inr (tw_report (length sourceFiles) st)))"

section \<open>Tool: get\_hooks\_usage\<close>

record hook_file =
  hf_file :: string
  hf_builtInHooks :: "string list"
  hf_customHooks :: "string list"

record hooks_report =
  hu_totalFiles :: nat
  hu_analyzedFiles :: nat
  hu_totalHooksUsage :: nat
  hu_mostUsedHooks :: "(string \<times> nat) list"
  hu_customHooksFound :: "string list"
  hu_fileUsage :: "hook_file list"

definition builtInHooks :: "string list" where
  "builtInHooks =
     [''useState'', ''useEffect'', ''useContext'', ''useReducer'', ''useCallback'',
      ''useMemo'', ''useRef'', ''useLayoutEffect'', ''useDebugValue'', ''useId'']"

definition rx_hook :: "string \<Rightarrow> rx" where     \<comment> \<open>\<open>new RegExp(`\\b${hook}\\b`, 'g')\<close>\<close>
  "rx_hook hook = Seq [WordB, Lit hook, WordB]"

definition rx_custom_hook :: rx where              \<comment> \<open>\<open>/\buse[A-Z][a-zA-Z0-9]*\b/g\<close>\<close>
  "rx_custom_hook =
     Seq [WordB, Lit ''use'', Set (Pos [CRange CHR ''A'' CHR ''Z'']),
          Star (Pos [CRange CHR ''a'' CHR ''z'', CRange CHR ''A'' CHR ''Z'',
                     CRange CHR ''0'' CHR ''9'']),
          WordB]"

text \<open>
  The callback of \<open>builtInHooks.forEach\<close>, on the pair of the file's \<open>fileHooks\<close> and
  the map \<open>hookUsage\<close>: a hook that occurs is counted with the number of its matches.
\<close>

fun hk_builtin :: "string \<Rightarrow> string \<Rightarrow> string list \<times> (string \<times> nat) list
                     \<Rightarrow> string list \<times> (string \<times> nat) list" where
  "hk_builtin content hook (fileHooks, hookUsage) =
     (let ms = matches (rx_hook hook) content in
      if ms \<noteq> [] then (fileHooks @ [hook], bump hook (length ms) hookUsage)
      else (fileHooks, hookUsage))"

text \<open>
  The callback of \<open>customHookMatches.forEach\<close>, on the pair of \<open>customHooks\<close> and
  \<open>hookUsage\<close>.
\<close>

fun hk_custom :: "string \<Rightarrow> string \<Rightarrow> (string \<times> string) list \<times> (string \<times> nat) list
                    \<Rightarrow> (string \<times> string) list \<times> (string \<times> nat) list" where
  "hk_custom file hook (customHooks, hookUsage) =
     (if hook \<notin> set builtInHooks then (customHooks @ [(hook, file)], bump hook 1 hookUsage)
      else (customHooks, hookUsage))"

text \<open>
  The loop body, on the triple \<open>(hookUsage, customHooks, fileUsage)\<close>. \<open>builtin\<close> is
  the pair \<open>(fileHooks, hookUsage)\<close> after the first \<open>forEach\<close>, \<open>custom\<close> the pair
  \<open>(customHooks, hookUsage)\<close> after the second.
\<close>

fun hk_body :: "string \<Rightarrow> string
     \<Rightarrow> (string \<times> nat) list \<times> (string \<times> string) list \<times> hook_file list
     \<Rightarrow> (string \<times> nat) list \<times> (string \<times> string) list \<times> hook_file list" where
  "hk_body file content (hookUsage, customHooks, fileUsage) =
     (let builtin = fold (hk_builtin content) builtInHooks ([], hookUsage);
          customHookMatches = map m_text (matches rx_custom_hook content);
          custom = fold (hk_custom file) customHookMatches (customHooks, snd builtin)
      in (snd custom, fst custom,
          if length (fst builtin) > 0 \<or> length customHookMatches > 0
          then fileUsage @ [\<lparr>hf_file = file,
                             hf_builtInHooks = fst builtin,
                             hf_customHooks =
                               filter (\<lambda>h. h \<notin> set builtInHooks) customHookMatches\<rparr>]
          else fileUsage))"

definition sortedHooks :: "(string \<times> nat) list \<Rightarrow> (string \<times> nat) list" where
  "sortedHooks hookUsage = js_sort by_count_desc hookUsage"

fun hk_report :: "nat \<Rightarrow> (string \<times> nat) list \<times> (string \<times> string) list \<times> hook_file list
                    \<Rightarrow> hooks_report" where
  "hk_report totalFiles (hookUsage, customHooks, fileUsage) =
     \<lparr>hu_totalFiles = totalFiles,
      hu_analyzedFiles = length fileUsage,
      hu_totalHooksUsage = fold (\<lambda>b a. a + b) (map snd hookUsage) 0,
      hu_mostUsedHooks = take 20 (sortedHooks hookUsage),
      hu_customHooksFound = uniq (map fst customHooks),
      hu_fileUsage = take 15 fileUsage\<rparr>"

definition getHooksUsage :: "env \<Rightarrow> string + hooks_report" where
  "getHooksUsage e =
     (case fg [''**/*.{tsx,jsx,ts,js}''] std_ignore e
      of Inl err \<Rightarrow> Inl err
       | Inr sourceFiles \<Rightarrow>
           (case for_files e (take 50 sourceFiles) hk_body ([], [], [])
            of Inl err \<Rightarrow> Inl err
             | Inr st \<Rightarrow> Inr (hk_report (length sourceFiles) st)))"

section \<open>Tool: analyze\_api\_calls\<close>

text \<open>
  A call object has the keys its shape gives it; a key that the shape lacks is \<open>None\<close>.
\<close>

record api_call =
  a_type :: string
  a_url :: "string option"
  a_method :: "string option"
  a_table :: "string option"
  a_endpoint :: "string option"
  a_file :: string

record api_report =
  aa_totalApiCalls :: nat
  aa_apiTypes :: "(string \<times> jsvalue) list"
  aa_methods :: "(string \<times> jsvalue) list"
  aa_domains :: "(string \<times> jsvalue) list"
  aa_calls :: "api_call list"
  aa_hasSupabase :: bool
  aa_hasAxios :: bool
  aa_hasFetch :: bool

definition rx_fetch :: rx where                  \<comment> \<open>\<open>/fetch\s*\(\s*["']([^"']+)["']/g\<close>\<close>
  "rx_fetch = Seq [Lit ''fetch'', ws, Lit ''('', ws, quote, Grp 1 unquoted1, quote]"

definition rx_axios :: rx where
  \<comment> \<open>\<open>/axios\s*\.\s*(get|post|put|delete|patch)\s*\(\s*["']([^"']+)["']/g\<close>\<close>
  "rx_axios =
     Seq [Lit ''axios'', ws, Lit ''.'', ws,
          Grp 1 (Alt [Lit ''get'', Lit ''post'', Lit ''put'', Lit ''delete'', Lit ''patch'']),
          ws, Lit ''('', ws, quote, Grp 2 unquoted1, quote]"

definition rx_supabase_from :: rx where
  \<comment> \<open>\<open>/supabase\s*\.\s*from\s*\(\s*["']([^"']+)["']\)/g\<close>\<close>
  "rx_supabase_from =
     Seq [Lit ''supabase'', ws, Lit ''.'', ws, Lit ''from'', ws, Lit ''('', ws,
          quote, Grp 1 unquoted1, quote, Lit '')'']"

definition rx_endpoint :: rx where                  \<comment> \<open>\<open>/["']\/api\/([^"']+)["']/g\<close>\<close>
  "rx_endpoint = Seq [quote, Lit ''/api/'', Grp 1 unquoted1, quote]"

text \<open>The four \<open>while\<close> loops of the loop body, each pushing one call per match.\<close>

definition api_body :: "string \<Rightarrow> string \<Rightarrow> api_call list \<Rightarrow> api_call list" where
  "api_body file content apiCalls =
     apiCalls
     @ map (\<lambda>m. \<lparr>a_type = ''fetch'', a_url = Some (grp m 1), a_method = Some ''GET'',
                  a_table = None, a_endpoint = None, a_file = file\<rparr>)
           (matches rx_fetch content)
     @ map (\<lambda>m. \<lparr>a_type = ''axios'', a_url = Some (grp m 2),
                  a_method = Some (toUpperCase (grp m 1)),
                  a_table = None, a_endpoint = None, a_file = file\<rparr>)
           (matches rx_axios content)
     @ map (\<lambda>m. \<lparr>a_type = ''supabase'', a_url = None, a_method = None,
                  a_table = Some (grp m 1), a_endpoint = None, a_file = file\<rparr>)
           (matches rx_supabase_from content)
     @ map (\<lambda>m. \<lparr>a_type = ''api_endpoint'', a_url = None, a_method = None,
                  a_table = None, a_endpoint = Some (grp m 1), a_file = file\<rparr>)
           (matches rx_endpoint content)"

text \<open>
  The callback of \<open>apiCalls.forEach\<close>, on the triple \<open>(apiTypes, methods, domains)\<close>
  of plain objects. \<open>if (call.method)\<close> and \<open>if (call.url)\<close> hold for a key that is
  there with a string that is not empty. Where \<open>new URL\<close> throws, a URL that starts
  with \<open>/\<close> counts as \<open>relative\<close>.
\<close>

fun api_count :: "env \<Rightarrow> api_call
     \<Rightarrow> (string \<times> jsvalue) list \<times> (string \<times> jsvalue) list \<times> (string \<times> jsvalue) list
     \<Rightarrow> (string \<times> jsvalue) list \<times> (string \<times> jsvalue) list \<times> (string \<times> jsvalue) list" where
  "api_count e call (apiTypes, methods, domains) =
     (obj_count (a_type call) apiTypes,
      (case a_method call of
         None \<Rightarrow> methods
       | Some method \<Rightarrow> if method \<noteq> [] then obj_count method methods else methods),
      (case a_url call of
         None \<Rightarrow> domains
       | Some url \<Rightarrow>
           if url \<noteq> [] then
             (case url_hostname e url of
                Some hostname \<Rightarrow> obj_count hostname domains
              | None \<Rightarrow> if startsWith url ''/'' then obj_count ''relative'' domains else domains)
           else domains))"

text \<open>The report; \<open>Object.keys(apiTypes).includes(t)\<close> asks for an own key.\<close>

fun api_summary :: "api_call list
     \<Rightarrow> (string \<times> jsvalue) list \<times> (string \<times> jsvalue) list \<times> (string \<times> jsvalue) list
     \<Rightarrow> api_report" where
  "api_summary apiCalls (apiTypes, methods, domains) =
     \<lparr>aa_totalApiCalls = length apiCalls,
      aa_apiTypes = apiTypes,
      aa_methods = methods,
      aa_domains = domains,
      aa_calls = take 20 apiCalls,
      aa_hasSupabase = (''supabase'' \<in> set (map fst apiTypes)),
      aa_hasAxios = (''axios'' \<in> set (map fst apiTypes)),
      aa_hasFetch = (''fetch'' \<in> set (map fst apiTypes))\<rparr>"

definition analyzeApiCalls :: "env \<Rightarrow> string + api_report" where
  "analyzeApiCalls e =
     (case fg [''**/*.{tsx,jsx,ts,js}''] std_ignore e
      of Inl err \<Rightarrow> Inl err
       | Inr sourceFiles \<Rightarrow>
           (case for_files e (take 50 sourceFiles) api_body []
            of Inl err \<Rightarrow> Inl err
             | Inr apiCalls \<Rightarrow>
                 Inr (api_summary apiCalls (fold (api_count e) apiCalls ([], [], [])))))"

section \<open>Tool: analyze\_database\_schema\<close>

record schema_table =
  st_name :: string
  st_file :: string
  st_definition :: string

record schema_type =
  sy_name :: string
  sy_file :: string
  sy_type :: string
  sy_definition :: string

record schema_function =
  sf_name :: string
  sf_file :: string

record schema_policy =
  sp_name :: string
  sp_table :: string
  sp_file :: string

record schema_relationship =
  sr_referencedTable :: string
  sr_file :: string

record table_ref =
  tr_table :: string
  tr_file :: string
  tr_tag :: string

record schema =
  sc_tables :: "schema_table list"
  sc_types :: "schema_type list"
  sc_functions :: "schema_function list"
  sc_policies :: "schema_policy list"
  sc_relationships :: "schema_relationship list"

record schema_statistics =
  ss_totalTables :: nat
  ss_totalTypes :: nat
  ss_totalFunctions :: nat
  ss_totalPolicies :: nat
  ss_totalRelationships :: nat
  ss_supabaseReferences :: nat

record schema_report =
  ds_schemaFiles :: "string list"
  ds_totalFiles :: nat
  ds_schema :: schema
  ds_supabaseUsage :: "table_ref list"
  ds_statistics :: schema_statistics
  ds_hasSupabase :: bool
  ds_hasSQL :: bool
  ds_hasTypeScript :: bool

definition rx_create_table_name :: rx where          \<comment> \<open>\<open>/CREATE\s+TABLE\s+(\w+)/i\<close>\<close>
  "rx_create_table_name = Seq [Lit ''CREATE'', ws1, Lit ''TABLE'', ws1, Grp 1 word1]"

definition rx_create_table :: rx where \<comment> \<open>\<open>/CREATE\s+TABLE\s+(\w+)\s*\([^)]+\)/gi\<close>\<close>
  "rx_create_table =
     Seq [Lit ''CREATE'', ws1, Lit ''TABLE'', ws1, Grp 1 word1, ws, Lit ''('',
          Plus (Neg [CChar CHR '')'']), Lit '')'']"

definition rx_db_name :: rx where
  \<comment> \<open>\<open>(\w*(?:Database|Table|Row|Insert|Update)\w*)\<close>\<close>
  "rx_db_name =
     Grp 1 (Seq [word0,
                 Alt [Lit ''Database'', Lit ''Table'', Lit ''Row'', Lit ''Insert'', Lit ''Update''],
                 word0])"

definition rx_interface :: rx where
  \<comment> \<open>\<open>/interface\s+(\w*(?:Database|Table|Row|Insert|Update)\w*)\s*\{[^}]+\}/gi\<close>\<close>
  "rx_interface =
     Seq [Lit ''interface'', ws1, rx_db_name, ws, Lit ''{'', Plus (Neg [CChar CHR ''}'']),
          Lit ''}'']"

definition rx_interface_name :: rx where                 \<comment> \<open>\<open>/interface\s+(\w+)/i\<close>\<close>
  "rx_interface_name = Seq [Lit ''interface'', ws1, Grp 1 word1]"

definition rx_type_alias :: rx where
  \<comment> \<open>\<open>/type\s+(\w*(?:Database|Table|Row|Insert|Update)\w*)\s*=[^;]+/gi\<close>\<close>
  "rx_type_alias =
     Seq [Lit ''type'', ws1, rx_db_name, ws, Lit ''='', Plus (Neg [CChar CHR '';''])]"

definition rx_type_name :: rx where                           \<comment> \<open>\<open>/type\s+(\w+)/i\<close>\<close>
  "rx_type_name = Seq [Lit ''type'', ws1, Grp 1 word1]"

definition rx_policy :: rx where       \<comment> \<open>\<open>/CREATE\s+POLICY\s+(\w+)\s+ON\s+(\w+)/gi\<close>\<close>
  "rx_policy =
     Seq [Lit ''CREATE'', ws1, Lit ''POLICY'', ws1, Grp 1 word1, ws1, Lit ''ON'', ws1,
          Grp 2 word1]"

definition rx_function :: rx where
  \<comment> \<open>\<open>/CREATE\s+(?:OR\s+REPLACE\s+)?FUNCTION\s+(\w+)/gi\<close>\<close>
  "rx_function =
     Seq [Lit ''CREATE'', ws1, Opt (Seq [Lit ''OR'', ws1, Lit ''REPLACE'', ws1]),
          Lit ''FUNCTION'', ws1, Grp 1 word1]"

definition rx_references :: rx where                  \<comment> \<open>\<open>/REFERENCES\s+(\w+)\s*\(/gi\<close>\<close>
  "rx_references = Seq [Lit ''REFERENCES'', ws1, Grp 1 word1, ws, Lit ''('']"

definition rx_references_name :: rx where                \<comment> \<open>\<open>/REFERENCES\s+(\w+)/i\<close>\<close>
  "rx_references_name = Seq [Lit ''REFERENCES'', ws1, Grp 1 word1]"

definition rx_from_ref :: rx where           \<comment> \<open>\<open>/from\s*\(\s*["'](\w+)["']\s*\)/gi\<close>\<close>
  "rx_from_ref =
     Seq [Lit ''from'', ws, Lit ''('', ws, quote, Grp 1 word1, quote, ws, Lit '')'']"

definition rx_dot_from_ref :: rx where      \<comment> \<open>\<open>/\.from\s*\(\s*["'](\w+)["']\s*\)/g\<close>\<close>
  "rx_dot_from_ref =
     Seq [Lit ''.from'', ws, Lit ''('', ws, quote, Grp 1 word1, quote, ws, Lit '')'']"

definition rx_quoted_word :: rx where                           \<comment> \<open>\<open>/["'](\w+)["']/\<close>\<close>
  "rx_quoted_word = Seq [quote, Grp 1 word1, quote]"

text \<open>
  \<open>matchText.match(re)?.[n]\<close>, kept when it is truthy: the group of the first match,
  \<open>None\<close> where there is no match or the group is empty.
\<close>

definition sub_group :: "bool \<Rightarrow> rx \<Rightarrow> nat \<Rightarrow> string \<Rightarrow> string option" where
  "sub_group ic r n t =
     (case (if ic then first_match_i r t else first_match r t) of
        None \<Rightarrow> None
      | Some m \<Rightarrow> (case group m n of None \<Rightarrow> None | Some g \<Rightarrow> if g = [] then None else Some g))"

text \<open>\<open>match.slice(0, 200) + '...'\<close>\<close>

definition preview :: "string \<Rightarrow> string" where
  "preview t = take 200 t @ ''...''"

text \<open>
  The body of the loop over the schema files, on the pair \<open>(schema, supabaseTypes)\<close>.
  Each \<open>content.match(re) || []\<close> is the list of matched texts; each callback looks
  the name up again in the matched text and pushes when it finds one.
\<close>

fun schema_body :: "string \<Rightarrow> string \<Rightarrow> schema \<times> table_ref list
                      \<Rightarrow> schema \<times> table_ref list" where
  "schema_body file content (sch, supabaseTypes) =
        (let tables =
               concat (map (\<lambda>t. case sub_group True rx_create_table_name 1 t of
                                   None \<Rightarrow> []
                                 | Some tableName \<Rightarrow>
                                     [\<lparr>st_name = tableName, st_file = file,
                                       st_definition = preview t\<rparr>])
                           (map m_text (matches_i rx_create_table content)));
             interfaces =
               concat (map (\<lambda>t. case sub_group True rx_interface_name 1 t of
                                   None \<Rightarrow> []
                                 | Some interfaceName \<Rightarrow>
                                     [\<lparr>sy_name = interfaceName, sy_file = file,
                                       sy_type = ''interface'', sy_definition = preview t\<rparr>])
                           (map m_text (matches_i rx_interface content)));
             aliases =
               concat (map (\<lambda>t. case sub_group True rx_type_name 1 t of
                                   None \<Rightarrow> []
                                 | Some typeName \<Rightarrow>
                                     [\<lparr>sy_name = typeName, sy_file = file,
                                       sy_type = ''type'', sy_definition = preview t\<rparr>])
                           (map m_text (matches_i rx_type_alias content)));
             policies =
               concat (map (\<lambda>t. case first_match_i rx_policy t of
                                   None \<Rightarrow> []
                                 | Some policyMatch \<Rightarrow>
                                     [\<lparr>sp_name = grp policyMatch 1, sp_table = grp policyMatch 2,
                                       sp_file = file\<rparr>])
                           (map m_text (matches_i rx_policy content)));
             functions =
               concat (map (\<lambda>t. case sub_group True rx_function 1 t of
                                   None \<Rightarrow> []
                                 | Some funcName \<Rightarrow> [\<lparr>sf_name = funcName, sf_file = file\<rparr>])
                           (map m_text (matches_i rx_function content)));
             relationships =
               concat (map (\<lambda>t. case sub_group True rx_references_name 1 t of
                                   None \<Rightarrow> []
                                 | Some referencedTable \<Rightarrow>
                                     [\<lparr>sr_referencedTable = referencedTable, sr_file = file\<rparr>])
                           (map m_text (matches_i rx_references content)));
             refs =
               (if str_includes content ''supabase'' \<or> str_includes content ''Database''
                then concat (map (\<lambda>t. case sub_group False rx_quoted_word 1 t of
                                         None \<Rightarrow> []
                                       | Some tableName \<Rightarrow>
                                           [\<lparr>tr_table = tableName, tr_file = file,
                                             tr_tag = ''supabase_query''\<rparr>])
                                 (map m_text (matches_i rx_from_ref content)))
                else [])
         in (\<lparr>sc_tables = sc_tables sch @ tables,
              sc_types = sc_types sch @ interfaces @ aliases,
              sc_functions = sc_functions sch @ functions,
              sc_policies = sc_policies sch @ policies,
              sc_relationships = sc_relationships sch @ relationships\<rparr>,
             supabaseTypes @ refs))"

text \<open>The body of the second loop, over the first 30 code files, on \<open>supabaseUsage\<close>.\<close>

definition usage_body :: "string \<Rightarrow> string \<Rightarrow> table_ref list \<Rightarrow> table_ref list" where
  "usage_body file content supabaseUsage =
     (if str_includes content ''supabase''
      then supabaseUsage
           @ concat (map (\<lambda>t. case sub_group False rx_quoted_word 1 t of
                                 None \<Rightarrow> []
                               | Some tableName \<Rightarrow>
                                   [\<lparr>tr_table = tableName, tr_file = file, tr_tag = ''query''\<rparr>])
                         (map m_text (matches rx_dot_from_ref content)))
      else supabaseUsage)"

definition empty_schema :: schema where
  "empty_schema =
     \<lparr>sc_tables = [], sc_types = [], sc_functions = [], sc_policies = [], sc_relationships = []\<rparr>"

text \<open>What follows the two loops: the truncated lists, the statistics and the flags.\<close>

fun schema_summary :: "string list \<Rightarrow> schema \<times> table_ref list \<Rightarrow> table_ref list \<Rightarrow> schema_report" where
  "schema_summary schemaFiles (sch, supabaseTypes) supabaseUsage =
     \<lparr>ds_schemaFiles = schemaFiles,
      ds_totalFiles = length schemaFiles,
      ds_schema =
        \<lparr>sc_tables = take 20 (sc_tables sch),
         sc_types = take 20 (sc_types sch),
         sc_functions = take 10 (sc_functions sch),
         sc_policies = take 10 (sc_policies sch),
         sc_relationships = take 10 (sc_relationships sch)\<rparr>,
      ds_supabaseUsage = take 15 supabaseUsage,
      ds_statistics =
        \<lparr>ss_totalTables = length (sc_tables sch),
         ss_totalTypes = length (sc_types sch),
         ss_totalFunctions = length (sc_functions sch),
         ss_totalPolicies = length (sc_policies sch),
         ss_totalRelationships = length (sc_relationships sch),
         ss_supabaseReferences = length supabaseUsage\<rparr>,
      ds_hasSupabase = (length supabaseUsage > 0 \<or> length supabaseTypes > 0),
      ds_hasSQL = list_ex (\<lambda>f. endsWith f ''.sql'') schemaFiles,
      ds_hasTypeScript = list_ex (\<lambda>f. endsWith f ''.ts'') schemaFiles\<rparr>"

text \<open>The patterns of the first enumeration, the schema files.\<close>

definition schema_patterns :: "string list" where
  "schema_patterns =
     [''**/schema*.{sql,ts,js}'', ''**/database*.{sql,ts,js}'',
      ''**/migrations/**/*.{sql,ts,js}'', ''**/supabase/**/*.{sql,ts,js}'',
      ''**/types/**/*database*.{ts,js}'', ''**/types/**/*supabase*.{ts,js}'']"

definition analyzeDatabaseSchema :: "env \<Rightarrow> string + schema_report" where
  "analyzeDatabaseSchema e =
     (case fg schema_patterns std_ignore e
      of Inl err \<Rightarrow> Inl err
       | Inr schemaFiles \<Rightarrow>
           (case for_files e schemaFiles schema_body (empty_schema, [])
            of Inl err \<Rightarrow> Inl err
             | Inr st \<Rightarrow>
                 (case fg [''**/*.{tsx,jsx,ts,js}''] std_ignore e
                  of Inl err \<Rightarrow> Inl err
                   | Inr codeFiles \<Rightarrow>
                       (case for_files e (take 30 codeFiles) usage_body []
                        of Inl err \<Rightarrow> Inl err
                         | Inr supabaseUsage \<Rightarrow>
                             Inr (schema_summary schemaFiles st supabaseUsage)))))"

section \<open>Request handlers\<close>

text \<open>
  How a call of a handler ends: it returns a value, or an \<open>Error\<close> with a message is
  thrown out of it to the protocol layer that called it.
\<close>

datatype 'a completion = Returns 'a | Throws string

text \<open>
  The \<open>result\<close> of a tool is the JSON text of its report or of its error object
  \<open>{ error: message }\<close>; the model keeps the value that is serialised, \<open>Inl\<close> for the
  error object. \<open>ErrorText\<close> is the text \<open>`Error: ${error.message}`\<close> of the
  handler's \<open>catch\<close>.
\<close>

datatype tool_text =
    ProjectText "string + project_report"
  | ComponentsText "string + components_report"
  | RoutingText "string + routing_report"
  | DependenciesText "string + dependencies_report"
  | TailwindText "string + tailwind_report"
  | HooksText "string + hooks_report"
  | ApiText "string + api_report"
  | SchemaText "string + schema_report"
  | ErrorText string

record tool_response =
  resp_text :: tool_text
  resp_isError :: bool

text \<open>The \<open>switch (name)\<close> of the tool handler; its \<open>default\<close> throws.\<close>

definition tool_switch :: "env \<Rightarrow> string \<Rightarrow> tool_text completion" where
  "tool_switch e name =
     (if name = ''analyze_project'' then Returns (ProjectText (analyzeProject e))
      else if name = ''get_components'' then Returns (ComponentsText (getComponents e))
      else if name = ''get_routing_structure'' then Returns (RoutingText (getRoutingStructure e))
      else if name = ''analyze_dependencies''
        then Returns (DependenciesText (analyzeDependencies e))
      else if name = ''get_tailwind_usage'' then Returns (TailwindText (getTailwindUsage e))
      else if name = ''get_hooks_usage'' then Returns (HooksText (getHooksUsage e))
      else if name = ''analyze_api_calls'' then Returns (ApiText (analyzeApiCalls e))
      else if name = ''analyze_database_schema''
        then Returns (SchemaText (analyzeDatabaseSchema e))
      else Throws (''Unknown tool: '' @ name))"

text \<open>The tool handler: the \<open>switch\<close> runs inside \<open>try\<close>, and \<open>catch\<close> answers.\<close>

definition callTool :: "env \<Rightarrow> string \<Rightarrow> tool_response completion" where
  "callTool e name =
     (case tool_switch e name of
        Returns result \<Rightarrow> Returns \<lparr>resp_text = result, resp_isError = False\<rparr>
      | Throws message \<Rightarrow>
          Returns \<lparr>resp_text = ErrorText (''Error: '' @ message), resp_isError = True\<rparr>)"

record structure_report =
  sr_totalFiles :: nat
  sr_files :: "string list"
  sr_directories :: "string list"

datatype resource_text =
    StructureRes structure_report
  | PackageRes "string + string"
  | ComponentsRes "string + components_report"
  | RoutesRes "string + routing_report"

text \<open>
  \<open>readProjectResource\<close>: \<open>uri.replace('project://', '')\<close>, then the \<open>switch\<close>,
  whose \<open>default\<close> throws. The \<open>structure\<close> case awaits \<open>fg\<close> with no \<open>try\<close>, so
  an enumeration that rejects is thrown on. \<open>PackageRes\<close> holds the text of
  \<open>package.json\<close> (\<open>Inr\<close>) or the message of the error object that stands in for it
  (\<open>Inl\<close>).
\<close>

definition readProjectResource :: "env \<Rightarrow> string \<Rightarrow> resource_text completion" where
  "readProjectResource e uri =
     (let resourceId = replace_first ''project://'' [] uri in
      if resourceId = ''structure'' then
        (case fg [''**/*''] (std_ignore @ [''**/.git/**'']) e
         of Inl err \<Rightarrow> Throws err
          | Inr files \<Rightarrow>
              Returns (StructureRes
                \<lparr>sr_totalFiles = length files,
                 sr_files = take 100 files,
                 sr_directories =
                   filter (\<lambda>d. d \<noteq> [])
                     (uniq (map (\<lambda>f. case split_on CHR ''/'' f of [] \<Rightarrow> [] | d # _ \<Rightarrow> d)
                                files))\<rparr>))
      else if resourceId = ''package'' then
        Returns (PackageRes
          (case package_json e of
             Unreadable \<Rightarrow> Inl ''No package.json found''
           | Unparsable content \<Rightarrow> Inr content
           | Parsed content _ \<Rightarrow> Inr content))
      else if resourceId = ''components'' then Returns (ComponentsRes (getComponents e))
      else if resourceId = ''routes'' then Returns (RoutesRes (getRoutingStructure e))
      else Throws (''Unknown resource: '' @ resourceId))"

record resource_contents =
  rc_uri :: string
  rc_mimeType :: string
  rc_text :: resource_text

text \<open>
  The handler of a resource read awaits \<open>readProjectResource\<close> with no \<open>try\<close>
  around it, so what is thrown there leaves the handler.
\<close>

definition readResource :: "env \<Rightarrow> string \<Rightarrow> resource_contents completion" where
  "readResource e uri =
     (case readProjectResource e uri of
        Throws message \<Rightarrow> Throws message
      | Returns content \<Rightarrow>
          Returns \<lparr>rc_uri = uri, rc_mimeType = ''application/json'', rc_text = content\<rparr>)"

text \<open>
  \<open>getPrompt\<close>: the text of the one user message of each template; \<open>${args.k}\<close>
  prints \<open>undefined\<close> for an argument that is not there. The \<open>default\<close> throws.
\<close>

definition arg :: "(string \<times> string) list \<Rightarrow> string \<Rightarrow> string" where
  "arg args k = (case map_of args k of None \<Rightarrow> ''undefined'' | Some v \<Rightarrow> v)"

definition nl :: string where "nl = [CHR 0x0A]"

definition getPrompt :: "string \<Rightarrow> (string \<times> string) list \<Rightarrow> string completion" where
  "getPrompt name args =
     (if name = ''code_review'' then
        Returns (''Please review the React component at '' @ arg args ''component_path''
                 @ '' and provide suggestions for improvements. Focus on:'' @ nl
                 @ ''1. Code structure and organization'' @ nl
                 @ ''2. Performance optimizations'' @ nl
                 @ ''3. Accessibility compliance'' @ nl
                 @ ''4. Best practices adherence'' @ nl
                 @ ''5. Potential bugs or issues'')
      else if name = ''refactor_suggest'' then
        Returns (''Analyze the file at '' @ arg args ''file_path''
                 @ '' and suggest refactoring improvements. Consider:'' @ nl
                 @ ''1. Code duplication elimination'' @ nl
                 @ ''2. Function extraction opportunities'' @ nl
                 @ ''3. Better naming conventions'' @ nl
                 @ ''4. Improved error handling'' @ nl
                 @ ''5. Enhanced readability'')
      else if name = ''performance_audit'' then
        Returns (''Perform a performance audit on the component '' @ [dq]
                 @ arg args ''component_name'' @ [dq] @ ''. Check for:'' @ nl
                 @ ''1. Unnecessary re-renders'' @ nl
                 @ ''2. Memory leaks'' @ nl
                 @ ''3. Bundle size impact'' @ nl
                 @ ''4. Load time optimizations'' @ nl
                 @ ''5. Runtime performance bottlenecks'')
      else Throws (''Unknown prompt: '' @ name))"

text \<open>The handler passes \<open>args || {}\<close> and has no \<open>try\<close> either.\<close>

definition getPromptRequest :: "string \<Rightarrow> (string \<times> string) list option \<Rightarrow> string completion" where
  "getPromptRequest name args = getPrompt name (case args of None \<Rightarrow> [] | Some a \<Rightarrow> a)"

text \<open>The fixed registries: the names the three list handlers announce.\<close>

definition tool_names :: "string list" where
  "tool_names =
     [''analyze_project'', ''get_components'', ''get_routing_structure'',
      ''analyze_dependencies'', ''get_tailwind_usage'', ''get_hooks_usage'',
      ''analyze_api_calls'', ''analyze_database_schema'']"

definition resource_uris :: "string list" where
  "resource_uris =
     [''project://structure'', ''project://package'', ''project://components'',
      ''project://routes'']"

definition prompt_names :: "string list" where
  "prompt_names = [''code_review'', ''refactor_suggest'', ''performance_audit'']"

section \<open>Observations and concrete projects\<close>

text \<open>
  What the statements below read off a result: the message of an error object, the text
  of a file that can be read, the first read that fails among the files an analyser goes
  through, and the number of route facts with a given path.
\<close>

definition error_message :: "string + 'r \<Rightarrow> string option" where
  "error_message res = (case res of Inl message \<Rightarrow> Some message | Inr _ \<Rightarrow> None)"

definition content_of :: "env \<Rightarrow> string \<Rightarrow> string" where
  "content_of e file = (case readFile e file of Inl _ \<Rightarrow> [] | Inr content \<Rightarrow> content)"

fun first_failure :: "env \<Rightarrow> string list \<Rightarrow> string option" where
  "first_failure e [] = None"
| "first_failure e (file # files) =
     (case readFile e file of Inl err \<Rightarrow> Some err | Inr _ \<Rightarrow> first_failure e files)"

definition routes_with_path :: "string \<Rightarrow> string + routing_report \<Rightarrow> nat" where
  "routes_with_path p res =
     (case res of Inl _ \<Rightarrow> 0 | Inr r \<Rightarrow> length (filter (\<lambda>x. r_path x = p) (rs_routes r)))"

text \<open>
  The component name as the specification words it: the base name of the file with its
  extension, \<open>.tsx\<close> or \<open>.jsx\<close>, taken off the end.
\<close>

definition spec_component_name :: "string \<Rightarrow> string" where
  "spec_component_name file =
     (let base = last (split_on CHR ''/'' file) in
      if endsWith base ''.tsx'' \<or> endsWith base ''.jsx'' then take (length base - 4) base
      else base)"

text \<open>
  The facts behind a frequency ranking. A fact is a key with the number by which the loop
  raises the key's count: a class token counts 1 each time it occurs; a built-in hook
  counts once per file with the number of its matches there; a custom hook counts 1 per
  match. \<open>class_facts\<close> and \<open>hook_facts\<close> list the facts of one file's text in the
  order the loop body counts them, and the fact sequences of a project put the files in
  enumeration order. \<open>tally\<close> is the counting itself, \<open>weight\<close> the sum of a key's
  numbers, \<open>first_pos\<close> the position of a key's first fact.
\<close>

definition class_facts :: "string \<Rightarrow> (string \<times> nat) list" where
  "class_facts content =
     map (\<lambda>cls. (cls, 1))
         (filter (\<lambda>cls. trim cls \<noteq> [] \<and> length cls > 0)
                 (concat (map classes_of (classMatches content))))"

definition hook_facts :: "string \<Rightarrow> (string \<times> nat) list" where
  "hook_facts content =
     map (\<lambda>hook. (hook, length (matches (rx_hook hook) content)))
         (filter (\<lambda>hook. matches (rx_hook hook) content \<noteq> []) builtInHooks)
     @ map (\<lambda>hook. (hook, 1))
           (filter (\<lambda>hook. hook \<notin> set builtInHooks)
                   (map m_text (matches rx_custom_hook content)))"

definition class_facts_by_file :: "env \<Rightarrow> (string \<times> nat) list list" where
  "class_facts_by_file e =
     map (\<lambda>file. class_facts (content_of e file))
         (take 50 (fg_entries [''**/*.{tsx,jsx,ts,js}''] std_ignore e))"

definition class_fact_sequence :: "env \<Rightarrow> (string \<times> nat) list" where
  "class_fact_sequence e = concat (class_facts_by_file e)"

definition hook_facts_by_file :: "env \<Rightarrow> (string \<times> nat) list list" where
  "hook_facts_by_file e =
     map (\<lambda>file. hook_facts (content_of e file))
         (take 50 (fg_entries [''**/*.{tsx,jsx,ts,js}''] std_ignore e))"

definition hook_fact_sequence :: "env \<Rightarrow> (string \<times> nat) list" where
  "hook_fact_sequence e = concat (hook_facts_by_file e)"

definition tally :: "('k \<times> nat) list \<Rightarrow> ('k \<times> nat) list \<Rightarrow> ('k \<times> nat) list" where
  "tally facts m = fold (\<lambda>(k, n). bump k n) facts m"

definition weight :: "('k \<times> nat) list \<Rightarrow> 'k \<Rightarrow> nat" where
  "weight facts k = sum_list (map snd (filter (\<lambda>f. fst f = k) facts))"

definition first_pos :: "'a list \<Rightarrow> 'a \<Rightarrow> nat" where
  "first_pos xs k = length (takeWhile (\<lambda>x. x \<noteq> k) xs)"

text \<open>
  The index, in the enumerated file sequence, of the first file with a fact for a key
  (the number of files when there is none).
\<close>

definition first_file :: "('k \<times> nat) list list \<Rightarrow> 'k \<Rightarrow> nat" where
  "first_file fss k = length (takeWhile (\<lambda>fs. k \<notin> fst ` set fs) fss)"

text \<open>
  The order of a ranking: a higher count comes first, and of two equal counts the one
  whose key was met first in the fact sequence.
\<close>

definition ranked_before :: "('k \<times> nat) list \<Rightarrow> 'k \<times> nat \<Rightarrow> 'k \<times> nat \<Rightarrow> bool" where
  "ranked_before facts a b =
     (snd a > snd b
      \<or> (snd a = snd b
          \<and> first_pos (map fst facts) (fst a) < first_pos (map fst facts) (fst b)))"

text \<open>
  The same order read by files: a higher count comes first, and of two equal counts the
  one whose key is not met in a later file than the other's.
\<close>

definition ranked_by_file :: "('k \<times> nat) list list \<Rightarrow> 'k \<times> nat \<Rightarrow> 'k \<times> nat \<Rightarrow> bool" where
  "ranked_by_file fss a b =
     (snd a > snd b \<or> (snd a = snd b \<and> first_file fss (fst a) \<le> first_file fss (fst b)))"

text \<open>
  The keys \<open>ks\<close> of a counter table are the keys seen so far, each once, in the order in
  which they were first seen.
\<close>

definition first_seen_order :: "'k list \<Rightarrow> 'k list \<Rightarrow> bool" where
  "first_seen_order seen ks =
     (distinct ks \<and> set ks = set seen
      \<and> sorted_wrt (\<lambda>a b. first_pos seen a < first_pos seen b) ks)"

text \<open>The patterns that the source runs in \<open>exec\<close> loops.\<close>

definition exec_patterns :: "rx list" where
  "exec_patterns = routePatterns @ [rx_fetch, rx_axios, rx_supabase_from, rx_endpoint]"

definition quoted :: "string \<Rightarrow> string" where
  "quoted t = dq # t @ [dq]"

text \<open>
  An empty project directory: no file, no manifest, and nothing that an enumeration
  could fail on.
\<close>

definition empty_env :: env where
  "empty_env =
     \<lparr>root = ''/project'', now = ''2024-01-01T00:00:00.000Z'', package_json = Unreadable,
      tree = [], url_hostname = (\<lambda>_. None),
      fg_error = (\<lambda>_ _. None)\<rparr>"

text \<open>A project without a manifest and with one source file.\<close>

definition no_manifest_env :: env where
  "no_manifest_env =
     \<lparr>root = ''/project'', now = ''2024-01-01T00:00:00.000Z'', package_json = Unreadable,
      tree = [(''src/App.tsx'', Inr ''export default App'')], url_hostname = (\<lambda>_. None),
      fg_error = (\<lambda>_ _. None)\<rparr>"

text \<open>
  The same project with a directory that cannot be listed: every enumeration rejects
  with the error of \<open>scandir\<close>.
\<close>

definition unlistable_env :: env where
  "unlistable_env =
     \<lparr>root = ''/project'', now = ''2024-01-01T00:00:00.000Z'', package_json = Unreadable,
      tree = [(''src/App.tsx'', Inr ''export default App'')], url_hostname = (\<lambda>_. None),
      fg_error = (\<lambda>_ _. Some ''EACCES: permission denied, scandir /project/private'')\<rparr>"

text \<open>
  A project with two component files, the first readable, the second not (its
  \<open>readFile\<close> throws for want of permission).
\<close>

definition broken_env :: env where
  "broken_env =
     \<lparr>root = ''/project'', now = ''2024-01-01T00:00:00.000Z'', package_json = Unreadable,
      tree = [(''src/A.tsx'', Inr ''useState(0)''),
              (''src/B.tsx'', Inl ''EACCES: permission denied'')],
      url_hostname = (\<lambda>_. None),
      fg_error = (\<lambda>_ _. None)\<rparr>"

text \<open>A project whose one schema file cannot be read.\<close>

definition broken_schema_env :: env where
  "broken_schema_env =
     \<lparr>root = ''/project'', now = ''2024-01-01T00:00:00.000Z'', package_json = Unreadable,
      tree = [(''supabase/schema.sql'', Inl ''EACCES: permission denied, open schema.sql'')],
      url_hostname = (\<lambda>_. None),
      fg_error = (\<lambda>_ _. None)\<rparr>"

text \<open>
  The scenario of the specification: a manifest that declares \<open>react\<close> and
  \<open>@supabase/supabase-js\<close>, and the one source file \<open>src/App.tsx\<close> with a
  \<open>Route\<close> element for \<open>/home\<close> and a call of \<open>useEffect\<close>.
\<close>

definition scenario_manifest_text :: string where
  "scenario_manifest_text =
     ''{'' @ quoted ''dependencies'' @ '':{'' @ quoted ''react'' @ '':'' @ quoted ''18.0.0''
       @ '','' @ quoted ''@supabase/supabase-js'' @ '':'' @ quoted ''2.0.0'' @ ''}}''"

definition scenario_content :: string where
  "scenario_content =
     ''<Route path='' @ quoted ''/home'' @ ''>'' @ nl @ ''useEffect(() => {}, [])''"

definition scenario_env :: env where
  "scenario_env =
     \<lparr>root = ''/project'', now = ''2024-01-01T00:00:00.000Z'',
      package_json =
        Parsed scenario_manifest_text
          \<lparr>m_name = None, m_version = None,
           m_dependencies =
             Some [(''react'', ''18.0.0''), (''@supabase/supabase-js'', ''2.0.0'')],
           m_devDependencies = None\<rparr>,
      tree = [(''package.json'', Inr scenario_manifest_text),
              (''src/App.tsx'', Inr scenario_content)],
      url_hostname = (\<lambda>_. None),
      fg_error = (\<lambda>_ _. None)\<rparr>"

definition home_route :: route where
  "home_route =
     \<lparr>r_path = ''/home'', r_file = ''src/App.tsx'', r_component = ''App'',
      r_isProtected = False\<rparr>"

text \<open>
  Two source files whose class attributes share the token \<open>flex\<close>, and two whose texts
  call hooks (the second calls \<open>useMemo\<close> before \<open>useState\<close>).
\<close>

definition ranking_env :: env where
  "ranking_env =
     \<lparr>root = ''/project'', now = ''2024-01-01T00:00:00.000Z'', package_json = Unreadable,
      tree = [(''src/a.tsx'', Inr (''<p className='' @ quoted ''p-4 flex'' @ ''/>'')),
              (''src/b.tsx'', Inr (''<p className='' @ quoted ''flex m-2'' @ ''/>''))],
      url_hostname = (\<lambda>_. None),
      fg_error = (\<lambda>_ _. None)\<rparr>"

definition hooks_env :: env where
  "hooks_env =
     \<lparr>root = ''/project'', now = ''2024-01-01T00:00:00.000Z'', package_json = Unreadable,
      tree = [(''src/a.ts'', Inr ''useRef()''),
              (''src/b.ts'', Inr ''useMemo();useState();useRef()'')],
      url_hostname = (\<lambda>_. None),
      fg_error = (\<lambda>_ _. None)\<rparr>"

text \<open>A project with 21 component files, \<open>src/a.tsx\<close> to \<open>src/u.tsx\<close>.\<close>

definition many_components_env :: env where
  "many_components_env =
     \<lparr>root = ''/project'', now = ''2024-01-01T00:00:00.000Z'', package_json = Unreadable,
      tree = map (\<lambda>c. (''src/'' @ [c] @ ''.tsx'', Inr ''export default 1''))
                 ''abcdefghijklmnopqrstu'',
      url_hostname = (\<lambda>_. None),
      fg_error = (\<lambda>_ _. None)\<rparr>"

text \<open>
  One source file with 31 class tokens, each used once; the last one, \<open>flex\<close>, is a
  layout class.
\<close>

definition thirty_classes :: "string list" where
  "thirty_classes =
     [''c00'', ''c01'', ''c02'', ''c03'', ''c04'', ''c05'', ''c06'', ''c07'', ''c08'', ''c09'',
      ''c10'', ''c11'', ''c12'', ''c13'', ''c14'', ''c15'', ''c16'', ''c17'', ''c18'', ''c19'',
      ''c20'', ''c21'', ''c22'', ''c23'', ''c24'', ''c25'', ''c26'', ''c27'', ''c28'', ''c29'']"

definition top_env :: env where
  "top_env =
     \<lparr>root = ''/project'', now = ''2024-01-01T00:00:00.000Z'', package_json = Unreadable,
      tree = [(''src/App.tsx'',
               Inr (''<p className=''
                    @ quoted (''c00 c01 c02 c03 c04 c05 c06 c07 c08 c09 ''
                              @ ''c10 c11 c12 c13 c14 c15 c16 c17 c18 c19 ''
                              @ ''c20 c21 c22 c23 c24 c25 c26 c27 c28 c29 flex'')
                    @ ''/>''))],
      url_hostname = (\<lambda>_. None),
      fg_error = (\<lambda>_ _. None)\<rparr>"

section \<open>Properties\<close>

subsection \<open>Dependency categorisation\<close>

lemma bucket_categorizePackage:
  "bucket c (categorizePackage name version cats) =
     (if c = spec_first_match spec_rules name
      then bucket c cats @ [\<lparr>pkg_name = name, pkg_version = version\<rparr>]
      else bucket c cats)"
  by (cases c) (simp_all add: categorizePackage_def spec_rules_def Let_def)

text \<open>
  Claim C4. \<open>categorizePackage\<close> is total and exclusive: for every name, version and
  state of the ten arrays, the package is appended to the array of exactly one category
  and the nine other arrays are left as they were; that category is the one the ordered
  first-match-wins rule list selects, so it depends on the name alone; and a name that
  contains \<open>react\<close> goes to the first category, whatever else it contains (a name
  with both \<open>react\<close> and \<open>router\<close> is a \<open>react\<close> package).
\<close>

theorem categorizePackage_first_match_exclusive:
  "(\<exists>!c. bucket c (categorizePackage name version cats)
            = bucket c cats @ [\<lparr>pkg_name = name, pkg_version = version\<rparr>])
   \<and> (\<forall>c. bucket c (categorizePackage name version cats) =
          (if c = spec_first_match spec_rules name
           then bucket c cats @ [\<lparr>pkg_name = name, pkg_version = version\<rparr>]
           else bucket c cats))
   \<and> (str_includes name ''react'' \<longrightarrow> spec_first_match spec_rules name = React)"
proof (intro conjI)
  show "\<exists>!c. bucket c (categorizePackage name version cats)
            = bucket c cats @ [\<lparr>pkg_name = name, pkg_version = version\<rparr>]"
  proof (rule ex1I [of _ "spec_first_match spec_rules name"])
    show "bucket (spec_first_match spec_rules name) (categorizePackage name version cats)
            = bucket (spec_first_match spec_rules name) cats
                @ [\<lparr>pkg_name = name, pkg_version = version\<rparr>]"
      by (simp add: bucket_categorizePackage)
  next
    fix c
    assume "bucket c (categorizePackage name version cats)
              = bucket c cats @ [\<lparr>pkg_name = name, pkg_version = version\<rparr>]"
    then show "c = spec_first_match spec_rules name"
      by (simp add: bucket_categorizePackage split: if_splits)
  qed
next
  show "\<forall>c. bucket c (categorizePackage name version cats) =
          (if c = spec_first_match spec_rules name
           then bucket c cats @ [\<lparr>pkg_name = name, pkg_version = version\<rparr>]
           else bucket c cats)"
    by (simp add: bucket_categorizePackage)
next
  show "str_includes name ''react'' \<longrightarrow> spec_first_match spec_rules name = React"
    by (simp add: spec_rules_def)
qed

theorem categorizePackage_first_match_exclusive_witness:
  "str_includes ''react-router-dom'' ''react''
   \<and> str_includes ''react-router-dom'' ''router''
   \<and> spec_first_match spec_rules ''react-router-dom'' = React
   \<and> bucket React (categorizePackage ''react-router-dom'' ''6.0.0'' empty_categories)
        = [\<lparr>pkg_name = ''react-router-dom'', pkg_version = ''6.0.0''\<rparr>]
   \<and> bucket Routing (categorizePackage ''react-router-dom'' ''6.0.0'' empty_categories) = []"
proof -
  have r: "str_includes ''react-router-dom'' ''react''" by simp
  have t: "str_includes ''react-router-dom'' ''router''" by simp
  have e: "bucket React empty_categories = []" "bucket Routing empty_categories = []"
    by (simp_all add: empty_categories_def)
  from categorizePackage_first_match_exclusive
         [of "''react-router-dom''" "''6.0.0''" empty_categories] r
  have m: "spec_first_match spec_rules ''react-router-dom'' = React"
    and b: "\<And>c. bucket c (categorizePackage ''react-router-dom'' ''6.0.0'' empty_categories) =
          (if c = spec_first_match spec_rules ''react-router-dom''
           then bucket c empty_categories
                  @ [\<lparr>pkg_name = ''react-router-dom'', pkg_version = ''6.0.0''\<rparr>]
           else bucket c empty_categories)"
    by blast+
  show ?thesis using r t m b [of React] b [of Routing] e by simp
qed

subsection \<open>The file loop\<close>

lemma for_files_first_failure:
  "for_files e files body st =
     (case first_failure e files of
        Some err \<Rightarrow> Inl err
      | None \<Rightarrow> Inr (fold (\<lambda>f. body f (content_of e f)) files st))"
  by (induction files arbitrary: st) (auto simp: content_of_def split: sum.splits option.splits)

lemma first_failure_append:
  "first_failure e (xs @ ys) =
     (case first_failure e xs of Some err \<Rightarrow> Some err | None \<Rightarrow> first_failure e ys)"
  by (induction xs) (auto split: sum.splits)

lemma for_files_failure:
  "first_failure e files = Some err \<Longrightarrow> for_files e files body st = Inl err"
  by (simp add: for_files_first_failure)

lemma for_files_success:
  "first_failure e files = None \<Longrightarrow>
   for_files e files body st = Inr (fold (\<lambda>f. body f (content_of e f)) files st)"
  by (simp add: for_files_first_failure)

lemma for_files_Inr:
  "for_files e files body st = Inr st' \<Longrightarrow>
   st' = fold (\<lambda>f. body f (content_of e f)) files st"
  by (simp add: for_files_first_failure split: option.splits)

lemma fg_Inr:
  "fg pats ign e = Inr files \<longleftrightarrow> fg_error e pats ign = None \<and> files = fg_entries pats ign e"
  by (auto simp: fg_def split: option.splits)

lemma fg_Inl: "fg pats ign e = Inl err \<longleftrightarrow> fg_error e pats ign = Some err"
  by (auto simp: fg_def split: option.splits)

lemma fg_empty:
  "tree e = [] \<Longrightarrow> fg_error e pats ign = None \<Longrightarrow> fg pats ign e = Inr []"
  by (simp add: fg_def fg_entries_def)

subsection \<open>Matches of the loop patterns\<close>

text \<open>
  A match never ends after the end of the text it started in, and every pattern of an
  \<open>exec\<close> loop uses up at least one character, so that no match of such a pattern is
  empty and the loop goes through the matches as \<open>matchAll\<close> does.
\<close>

lemma lit_match_length:
  "lit_match ic l p s = Some (p', s') \<Longrightarrow> length s = length l + length s'"
  by (induction ic l p s rule: lit_match.induct) (auto split: if_splits)

lemma spans_length: "(p', s') \<in> set (spans ic cs p s) \<Longrightarrow> length s' \<le> length s"
  by (induction ic cs p s rule: spans.induct) (auto split: if_splits)

lemma run_length:
  "(p', s', g') \<in> set (run ic r st) \<Longrightarrow> length s' \<le> length (fst (snd st))"
  "(p', s', g') \<in> set (run_seq ic rs st) \<Longrightarrow> length s' \<le> length (fst (snd st))"
proof (induction ic r st and ic rs st arbitrary: p' s' g' and p' s' g' rule: run_run_seq.induct)
  case (1 ic l p s g)
  then show ?case by (auto split: option.splits dest: lit_match_length [OF sym])
next
  case (2 ic cs p s g)
  then show ?case by (auto split: list.splits if_splits)
next
  case (3 ic cs p s g)
  then show ?case by (auto dest: spans_length)
next
  case (4 ic cs p s g)
  then show ?case by (auto split: list.splits if_splits dest!: spans_length)
next
  case (5 ic r st)
  then show ?case by auto
next
  case (6 ic rs st)
  then show ?case by auto
next
  case (7 ic rs st)
  then show ?case by auto
next
  case (8 ic n r p s g)
  then show ?case by auto
next
  case (9 ic p s g)
  then show ?case by (auto split: if_splits)
next
  case (10 ic p s g)
  then show ?case by (auto split: if_splits)
next
  case (11 ic st)
  then show ?case by auto
next
  case (12 ic r rs st)
  from "12.prems" obtain p1 s1 g1 where a: "(p1, s1, g1) \<in> set (run ic r st)"
    and b: "(p', s', g') \<in> set (run_seq ic rs (p1, s1, g1))"
    by auto
  from "12.IH"(1) [OF a] have "length s1 \<le> length (fst (snd st))" .
  moreover from "12.IH"(2) [OF a b] have "length s' \<le> length s1" by simp
  ultimately show ?case by simp
qed

lemma seq_lit_consumes:
  assumes "(p', s', g') \<in> set (run ic (Seq (Lit (c # l) # rs)) (p, s, g))"
  shows "length s' < length s"
proof -
  from assms obtain p1 s1 where a: "lit_match ic (c # l) p s = Some (p1, s1)"
    and b: "(p', s', g') \<in> set (run_seq ic rs (p1, s1, g))"
    by (cases "lit_match ic (c # l) p s") auto
  from lit_match_length [OF a] have "length s1 < length s" by simp
  moreover from run_length(2) [OF b] have "length s' \<le> length s1" by simp
  ultimately show ?thesis by simp
qed

lemma seq_set_consumes:
  assumes "(p', s', g') \<in> set (run ic (Seq (Set cs # rs)) (p, s, g))"
  shows "length s' < length s"
proof -
  from assms obtain c s1 where a: "s = c # s1"
    and b: "(p', s', g') \<in> set (run_seq ic rs (Some c, s1, g))"
    by (auto split: list.splits if_splits)
  from run_length(2) [OF b] have "length s' \<le> length s1" by simp
  with a show ?thesis by simp
qed

lemma exec_patterns_consume:
  assumes "r \<in> set exec_patterns" and "(p', s', g') \<in> set (run ic r (p, s, g))"
  shows "length s' < length s"
proof -
  from assms(1) have "(\<exists>c l rs. r = Seq (Lit (c # l) # rs)) \<or> (\<exists>cs rs. r = Seq (Set cs # rs))"
    by (auto simp: exec_patterns_def routePatterns_def rx_route_path_def rx_route_route_def
          rx_route_jsx_def rx_route_object_def rx_fetch_def rx_axios_def rx_supabase_from_def
          rx_endpoint_def quote_def)
  with assms(2) show ?thesis
    by (auto dest: seq_lit_consumes seq_set_consumes)
qed

lemma matchAll_never_empty:
  "(\<And>p s p' s' g'. (p', s', g') \<in> set (run ic r (p, s, [])) \<Longrightarrow> length s' < length s)
   \<Longrightarrow> m \<in> set (matchAll ic r p s) \<Longrightarrow> m_text m \<noteq> []"
proof (induction ic r p s rule: matchAll.induct)
  case (1 ic r p s)
  note c = "1.prems"(1)
  show ?case
  proof (cases "run ic r (p, s, [])")
    case Nil
    show ?thesis
    proof (cases s)
      case Nil': Nil
      with Nil "1.prems"(2) show ?thesis by (simp add: matchAll.simps [of ic r p "[]"])
    next
      case (Cons x xs)
      with Nil "1.prems"(2) have "m \<in> set (matchAll ic r (Some x) xs)"
        by (simp add: matchAll.simps [of ic r p "x # xs"])
      from "1.IH"(1) [OF Nil Cons c this] show ?thesis by simp
    qed
  next
    case (Cons st sts)
    obtain p1 s1 g1 where st: "st = (p1, s1, g1)" by (cases st)
    have "(p1, s1, g1) \<in> set (run ic r (p, s, []))" by (simp add: Cons st)
    from c [OF this] have lt: "length s1 < length s" .
    then have ne: "length s - length s1 \<noteq> 0" by simp
    from "1.prems"(2) Cons st ne
    have "m = \<lparr>m_text = take (length s - length s1) s, m_groups = g1\<rparr>
          \<or> m \<in> set (matchAll ic r p1 s1)"
      by (simp add: matchAll.simps [of ic r p s])
    then show ?thesis
    proof
      assume "m = \<lparr>m_text = take (length s - length s1) s, m_groups = g1\<rparr>"
      with lt show ?thesis by (cases s) auto
    next
      assume "m \<in> set (matchAll ic r p1 s1)"
      from "1.IH"(3) [OF Cons st [symmetric] refl ne c this] show ?thesis by simp
    qed
  qed
qed

lemma exec_loop_matches_not_empty:
  "r \<in> set exec_patterns \<Longrightarrow> m \<in> set (matches r content) \<Longrightarrow> m_text m \<noteq> []"
  unfolding matches_def
  by (rule matchAll_never_empty) (auto dest: exec_patterns_consume)

subsection \<open>Read failures\<close>

lemma broken_components: "getComponents broken_env = Inl ''EACCES: permission denied''"
  by code_simp

text \<open>
  With one readable and one unreadable component file, \<open>get_components\<close> gives no
  report: it returns the error object of the failed read, and what the readable file
  would have contributed is lost with it.
\<close>

theorem read_failure_aborts_counterexample:
  "error_message (getComponents broken_env) = Some ''EACCES: permission denied''
   \<and> readFile broken_env ''src/A.tsx'' = Inr ''useState(0)''"
  by (simp add: broken_components error_message_def) (simp add: broken_env_def readFile_def)

text \<open>
  Claim C1, as the code has it. None of the five analysers that read enumerated files
  recovers from a failed read by skipping the file: when a read fails among the files an
  analyser goes through (the first 20 component files, the first 50 source files, or
  every schema file and then the first 30 source files), the analyser stops there and
  returns the error object \<open>{ error: message }\<close> with the message of that first failed
  read, and no report. The failure does not leave the analyser as an exception.
\<close>

theorem read_failure_gives_error_object:
  "(\<forall>componentFiles err.
      fg [''**/*.{tsx,jsx}''] std_ignore e = Inr componentFiles
      \<and> first_failure e (take 20 componentFiles) = Some err
      \<longrightarrow> getComponents e = Inl err)
   \<and> (\<forall>sourceFiles err.
      fg [''**/*.{tsx,jsx,ts,js}''] std_ignore e = Inr sourceFiles
      \<and> first_failure e (take 50 sourceFiles) = Some err
      \<longrightarrow> getTailwindUsage e = Inl err \<and> getHooksUsage e = Inl err
          \<and> analyzeApiCalls e = Inl err)
   \<and> (\<forall>schemaFiles err.
      fg schema_patterns std_ignore e = Inr schemaFiles
      \<and> first_failure e schemaFiles = Some err
      \<longrightarrow> analyzeDatabaseSchema e = Inl err)
   \<and> (\<forall>schemaFiles codeFiles err.
      fg schema_patterns std_ignore e = Inr schemaFiles
      \<and> first_failure e schemaFiles = None
      \<and> fg [''**/*.{tsx,jsx,ts,js}''] std_ignore e = Inr codeFiles
      \<and> first_failure e (take 30 codeFiles) = Some err
      \<longrightarrow> analyzeDatabaseSchema e = Inl err)"
proof (intro conjI allI impI; elim conjE)
  fix componentFiles err
  assume "fg [''**/*.{tsx,jsx}''] std_ignore e = Inr componentFiles"
    and "first_failure e (take 20 componentFiles) = Some err"
  then show "getComponents e = Inl err"
    by (simp add: getComponents_def for_files_failure)
next
  fix sourceFiles err
  assume "fg [''**/*.{tsx,jsx,ts,js}''] std_ignore e = Inr sourceFiles"
    and "first_failure e (take 50 sourceFiles) = Some err"
  then show "getTailwindUsage e = Inl err"
    by (simp add: getTailwindUsage_def for_files_failure)
next
  fix sourceFiles err
  assume "fg [''**/*.{tsx,jsx,ts,js}''] std_ignore e = Inr sourceFiles"
    and "first_failure e (take 50 sourceFiles) = Some err"
  then show "getHooksUsage e = Inl err"
    by (simp add: getHooksUsage_def for_files_failure)
next
  fix sourceFiles err
  assume "fg [''**/*.{tsx,jsx,ts,js}''] std_ignore e = Inr sourceFiles"
    and "first_failure e (take 50 sourceFiles) = Some err"
  then show "analyzeApiCalls e = Inl err"
    by (simp add: analyzeApiCalls_def for_files_failure)
next
  fix schemaFiles err
  assume "fg schema_patterns std_ignore e = Inr schemaFiles"
    and "first_failure e schemaFiles = Some err"
  then show "analyzeDatabaseSchema e = Inl err"
    by (simp add: analyzeDatabaseSchema_def for_files_failure)
next
  fix schemaFiles codeFiles err
  assume "fg schema_patterns std_ignore e = Inr schemaFiles"
    and "first_failure e schemaFiles = None"
    and "fg [''**/*.{tsx,jsx,ts,js}''] std_ignore e = Inr codeFiles"
    and "first_failure e (take 30 codeFiles) = Some err"
  then show "analyzeDatabaseSchema e = Inl err"
    by (simp add: analyzeDatabaseSchema_def for_files_failure for_files_success)
qed

lemma broken_env_files:
  "fg [''**/*.{tsx,jsx}''] std_ignore broken_env = Inr [''src/A.tsx'', ''src/B.tsx'']"
  "fg [''**/*.{tsx,jsx,ts,js}''] std_ignore broken_env = Inr [''src/A.tsx'', ''src/B.tsx'']"
  "fg schema_patterns std_ignore broken_env = Inr []"
  by code_simp+

lemma broken_env_reads:
  "first_failure broken_env (take 20 [''src/A.tsx'', ''src/B.tsx''])
     = Some ''EACCES: permission denied''"
  "first_failure broken_env (take 50 [''src/A.tsx'', ''src/B.tsx''])
     = Some ''EACCES: permission denied''"
  "first_failure broken_env (take 30 [''src/A.tsx'', ''src/B.tsx''])
     = Some ''EACCES: permission denied''"
  "first_failure broken_env [] = None"
  by code_simp+

lemma broken_schema_env_files:
  "fg schema_patterns std_ignore broken_schema_env = Inr [''supabase/schema.sql'']"
  "first_failure broken_schema_env [''supabase/schema.sql'']
     = Some ''EACCES: permission denied, open schema.sql''"
  by code_simp+

theorem read_failure_gives_error_object_witness:
  "fg [''**/*.{tsx,jsx}''] std_ignore broken_env = Inr [''src/A.tsx'', ''src/B.tsx'']
   \<and> first_failure broken_env (take 20 [''src/A.tsx'', ''src/B.tsx''])
       = Some ''EACCES: permission denied''
   \<and> getComponents broken_env = Inl ''EACCES: permission denied''
   \<and> fg [''**/*.{tsx,jsx,ts,js}''] std_ignore broken_env = Inr [''src/A.tsx'', ''src/B.tsx'']
   \<and> first_failure broken_env (take 50 [''src/A.tsx'', ''src/B.tsx''])
       = Some ''EACCES: permission denied''
   \<and> getTailwindUsage broken_env = Inl ''EACCES: permission denied''
   \<and> getHooksUsage broken_env = Inl ''EACCES: permission denied''
   \<and> analyzeApiCalls broken_env = Inl ''EACCES: permission denied''
   \<and> fg schema_patterns std_ignore broken_env = Inr []
   \<and> first_failure broken_env [] = None
   \<and> first_failure broken_env (take 30 [''src/A.tsx'', ''src/B.tsx''])
       = Some ''EACCES: permission denied''
   \<and> analyzeDatabaseSchema broken_env = Inl ''EACCES: permission denied''
   \<and> fg schema_patterns std_ignore broken_schema_env = Inr [''supabase/schema.sql'']
   \<and> first_failure broken_schema_env [''supabase/schema.sql'']
       = Some ''EACCES: permission denied, open schema.sql''
   \<and> analyzeDatabaseSchema broken_schema_env
       = Inl ''EACCES: permission denied, open schema.sql''"
proof -
  note b = read_failure_gives_error_object [of broken_env]
  note s = read_failure_gives_error_object [of broken_schema_env]
  from b broken_env_files(1) broken_env_reads(1)
  have c: "getComponents broken_env = Inl ''EACCES: permission denied''"
    by blast
  from b broken_env_files(2) broken_env_reads(2)
  have t: "getTailwindUsage broken_env = Inl ''EACCES: permission denied''
           \<and> getHooksUsage broken_env = Inl ''EACCES: permission denied''
           \<and> analyzeApiCalls broken_env = Inl ''EACCES: permission denied''"
    by blast
  from b broken_env_files(2,3) broken_env_reads(3,4)
  have d: "analyzeDatabaseSchema broken_env = Inl ''EACCES: permission denied''"
    by blast
  from s broken_schema_env_files
  have "analyzeDatabaseSchema broken_schema_env
          = Inl ''EACCES: permission denied, open schema.sql''"
    by blast
  with c t d broken_env_files broken_env_reads broken_schema_env_files
  show ?thesis by blast
qed

subsection \<open>The empty project and the missing manifest\<close>

text \<open>
  In an empty project directory \<open>analyze_dependencies\<close> returns the error object, not
  a report with zero counts.
\<close>

theorem empty_project_dependencies_counterexample:
  "analyzeDependencies empty_env = Inl ''No package.json found''"
  by (simp add: analyzeDependencies_def read_manifest_def empty_env_def)

text \<open>
  Claim C2, as the code has it. For an empty project directory (no file, no manifest,
  and so no enumeration that fails) seven of the eight analysis kinds return a well-formed report in which every count is
  zero and every list is empty; \<open>analyze_dependencies\<close>, which needs the manifest,
  returns the error object \<open>{ error: 'No package.json found' }\<close>.
\<close>

theorem empty_project_reports:
  assumes "tree e = []" and "package_json e = Unreadable"
    and "\<forall>patterns ignore. fg_error e patterns ignore = None"
  shows "analyzeProject e =
           Inr \<lparr>ap_projectPath = root e, ap_packageName = ''Unknown'',
                ap_packageVersion = ''Unknown'', ap_totalFiles = 0, ap_tsx = 0, ap_jsx = 0,
                ap_ts = 0, ap_js = 0, ap_hasReact = False, ap_hasTypeScript = False,
                ap_hasVite = False, ap_hasNext = False, ap_hasTailwind = False,
                ap_hasSupabase = False, ap_timestamp = now e\<rparr>
     \<and> getComponents e = Inr \<lparr>gc_totalComponents = 0, gc_analyzed = 0, gc_components = []\<rparr>
     \<and> getRoutingStructure e =
           Inr \<lparr>rs_routingFiles = [], rs_routes = [], rs_totalRoutes = 0,
                rs_hasReactRouter = False\<rparr>
     \<and> analyzeDependencies e = Inl ''No package.json found''
     \<and> getTailwindUsage e =
           Inr \<lparr>tw_totalFiles = 0, tw_analyzedFiles = 0, tw_totalUniqueClasses = 0,
                tw_mostUsedClasses = [],
                tw_patterns = \<lparr>twp_layout = [], twp_colors = [], twp_typography = [],
                               twp_responsive = []\<rparr>,
                tw_fileUsage = []\<rparr>
     \<and> getHooksUsage e =
           Inr \<lparr>hu_totalFiles = 0, hu_analyzedFiles = 0, hu_totalHooksUsage = 0,
                hu_mostUsedHooks = [], hu_customHooksFound = [], hu_fileUsage = []\<rparr>
     \<and> analyzeApiCalls e =
           Inr \<lparr>aa_totalApiCalls = 0, aa_apiTypes = [], aa_methods = [], aa_domains = [],
                aa_calls = [], aa_hasSupabase = False, aa_hasAxios = False,
                aa_hasFetch = False\<rparr>
     \<and> analyzeDatabaseSchema e =
           Inr \<lparr>ds_schemaFiles = [], ds_totalFiles = 0,
                ds_schema = empty_schema, ds_supabaseUsage = [],
                ds_statistics =
                  \<lparr>ss_totalTables = 0, ss_totalTypes = 0, ss_totalFunctions = 0,
                   ss_totalPolicies = 0, ss_totalRelationships = 0,
                   ss_supabaseReferences = 0\<rparr>,
                ds_hasSupabase = False, ds_hasSQL = False, ds_hasTypeScript = False\<rparr>"
proof (intro conjI)
  show "analyzeProject e =
           Inr \<lparr>ap_projectPath = root e, ap_packageName = ''Unknown'',
                ap_packageVersion = ''Unknown'', ap_totalFiles = 0, ap_tsx = 0, ap_jsx = 0,
                ap_ts = 0, ap_js = 0, ap_hasReact = False, ap_hasTypeScript = False,
                ap_hasVite = False, ap_hasNext = False, ap_hasTailwind = False,
                ap_hasSupabase = False, ap_timestamp = now e\<rparr>"
    using assms
    by (simp add: analyzeProject_def fg_empty read_manifest_def or_unknown_def has_dep_def)
  show "getComponents e = Inr \<lparr>gc_totalComponents = 0, gc_analyzed = 0, gc_components = []\<rparr>"
    using assms by (simp add: getComponents_def fg_empty)
  show "getRoutingStructure e =
           Inr \<lparr>rs_routingFiles = [], rs_routes = [], rs_totalRoutes = 0,
                rs_hasReactRouter = False\<rparr>"
    using assms by (simp add: getRoutingStructure_def fg_empty)
  show "analyzeDependencies e = Inl ''No package.json found''"
    using assms by (simp add: analyzeDependencies_def read_manifest_def)
  show "getTailwindUsage e =
           Inr \<lparr>tw_totalFiles = 0, tw_analyzedFiles = 0, tw_totalUniqueClasses = 0,
                tw_mostUsedClasses = [],
                tw_patterns = \<lparr>twp_layout = [], twp_colors = [], twp_typography = [],
                               twp_responsive = []\<rparr>,
                tw_fileUsage = []\<rparr>"
    using assms by (simp add: getTailwindUsage_def fg_empty sortedClasses_def js_sort_def)
  show "getHooksUsage e =
           Inr \<lparr>hu_totalFiles = 0, hu_analyzedFiles = 0, hu_totalHooksUsage = 0,
                hu_mostUsedHooks = [], hu_customHooksFound = [], hu_fileUsage = []\<rparr>"
    using assms
    by (simp add: getHooksUsage_def fg_empty sortedHooks_def js_sort_def uniq_def)
  show "analyzeApiCalls e =
           Inr \<lparr>aa_totalApiCalls = 0, aa_apiTypes = [], aa_methods = [], aa_domains = [],
                aa_calls = [], aa_hasSupabase = False, aa_hasAxios = False,
                aa_hasFetch = False\<rparr>"
    using assms by (simp add: analyzeApiCalls_def fg_empty)
  show "analyzeDatabaseSchema e =
           Inr \<lparr>ds_schemaFiles = [], ds_totalFiles = 0,
                ds_schema = empty_schema, ds_supabaseUsage = [],
                ds_statistics =
                  \<lparr>ss_totalTables = 0, ss_totalTypes = 0, ss_totalFunctions = 0,
                   ss_totalPolicies = 0, ss_totalRelationships = 0,
                   ss_supabaseReferences = 0\<rparr>,
                ds_hasSupabase = False, ds_hasSQL = False, ds_hasTypeScript = False\<rparr>"
    using assms
    by (simp add: analyzeDatabaseSchema_def fg_empty empty_schema_def)
qed

theorem empty_project_reports_witness:
  "tree empty_env = [] \<and> package_json empty_env = Unreadable
   \<and> (\<forall>patterns ignore. fg_error empty_env patterns ignore = None)
   \<and> getComponents empty_env
       = Inr \<lparr>gc_totalComponents = 0, gc_analyzed = 0, gc_components = []\<rparr>
   \<and> getRoutingStructure empty_env
       = Inr \<lparr>rs_routingFiles = [], rs_routes = [], rs_totalRoutes = 0,
              rs_hasReactRouter = False\<rparr>
   \<and> getHooksUsage empty_env
       = Inr \<lparr>hu_totalFiles = 0, hu_analyzedFiles = 0, hu_totalHooksUsage = 0,
              hu_mostUsedHooks = [], hu_customHooksFound = [], hu_fileUsage = []\<rparr>"
proof -
  have t: "tree empty_env = []" and m: "package_json empty_env = Unreadable"
    and g: "\<forall>patterns ignore. fg_error empty_env patterns ignore = None"
    by (simp_all add: empty_env_def)
  from empty_project_reports [OF t m g] t m g show ?thesis by simp
qed

text \<open>
  Claim C3. When the manifest is absent, \<open>analyze_project\<close> does not fail for want of
  it: with the enumeration of the source files returning, it returns a report whose
  \<open>packageName\<close> and \<open>packageVersion\<close> are \<open>Unknown\<close> and whose dependency flags
  are all false, and the one error it can return is that of an enumeration that rejects.
  \<open>analyze_dependencies\<close> returns the error object
  \<open>{ error: 'No package.json found' }\<close>; neither throws.
\<close>

theorem manifest_absent:
  assumes "package_json e = Unreadable"
  shows "(\<forall>files. fg [''**/*.{tsx,jsx,ts,js}''] std_ignore e = Inr files \<longrightarrow>
            (\<exists>r. analyzeProject e = Inr r
                 \<and> ap_packageName r = ''Unknown'' \<and> ap_packageVersion r = ''Unknown''
                 \<and> ap_totalFiles r = length files
                 \<and> \<not> ap_hasReact r \<and> \<not> ap_hasTypeScript r \<and> \<not> ap_hasVite r
                 \<and> \<not> ap_hasNext r \<and> \<not> ap_hasTailwind r \<and> \<not> ap_hasSupabase r))
         \<and> (\<forall>err. analyzeProject e = Inl err \<longrightarrow>
               fg [''**/*.{tsx,jsx,ts,js}''] std_ignore e = Inl err)
         \<and> analyzeDependencies e = Inl ''No package.json found''"
proof (intro conjI allI impI)
  fix files
  assume "fg [''**/*.{tsx,jsx,ts,js}''] std_ignore e = Inr files"
  with assms
  show "\<exists>r. analyzeProject e = Inr r
            \<and> ap_packageName r = ''Unknown'' \<and> ap_packageVersion r = ''Unknown''
            \<and> ap_totalFiles r = length files
            \<and> \<not> ap_hasReact r \<and> \<not> ap_hasTypeScript r \<and> \<not> ap_hasVite r
            \<and> \<not> ap_hasNext r \<and> \<not> ap_hasTailwind r \<and> \<not> ap_hasSupabase r"
    by (simp add: analyzeProject_def read_manifest_def or_unknown_def has_dep_def)
next
  fix err
  assume "analyzeProject e = Inl err"
  then show "fg [''**/*.{tsx,jsx,ts,js}''] std_ignore e = Inl err"
    by (simp add: analyzeProject_def Let_def split: sum.splits)
next
  from assms show "analyzeDependencies e = Inl ''No package.json found''"
    by (simp add: analyzeDependencies_def read_manifest_def)
qed

lemma no_manifest_env_files:
  "fg [''**/*.{tsx,jsx,ts,js}''] std_ignore no_manifest_env = Inr [''src/App.tsx'']"
  by code_simp

lemma unlistable_env_project:
  "analyzeProject unlistable_env = Inl ''EACCES: permission denied, scandir /project/private''"
  by code_simp

theorem manifest_absent_witness:
  "package_json no_manifest_env = Unreadable
   \<and> fg [''**/*.{tsx,jsx,ts,js}''] std_ignore no_manifest_env = Inr [''src/App.tsx'']
   \<and> (\<exists>r. analyzeProject no_manifest_env = Inr r \<and> ap_packageName r = ''Unknown''
          \<and> ap_totalFiles r = 1)
   \<and> analyzeDependencies no_manifest_env = Inl ''No package.json found''
   \<and> package_json unlistable_env = Unreadable
   \<and> analyzeProject unlistable_env
       = Inl ''EACCES: permission denied, scandir /project/private''
   \<and> fg [''**/*.{tsx,jsx,ts,js}''] std_ignore unlistable_env
       = Inl ''EACCES: permission denied, scandir /project/private''"
proof -
  have m: "package_json no_manifest_env = Unreadable"
    by (simp add: no_manifest_env_def)
  have u: "package_json unlistable_env = Unreadable"
    by (simp add: unlistable_env_def)
  from manifest_absent [OF m] no_manifest_env_files m
  have a: "(\<exists>r. analyzeProject no_manifest_env = Inr r \<and> ap_packageName r = ''Unknown''
               \<and> ap_totalFiles r = 1)
           \<and> analyzeDependencies no_manifest_env = Inl ''No package.json found''"
    by auto
  from manifest_absent [OF u] unlistable_env_project
  have "fg [''**/*.{tsx,jsx,ts,js}''] std_ignore unlistable_env
          = Inl ''EACCES: permission denied, scandir /project/private''"
    by blast
  with a m u no_manifest_env_files unlistable_env_project show ?thesis by blast
qed

subsection \<open>Names outside the registries\<close>

text \<open>
  Claim C6 at the three handlers. A tool name outside the registry is answered with an
  error result: the tool handler catches the \<open>Error\<close> of its \<open>default\<close> case and
  returns the text \<open>Error: Unknown tool: name\<close> with \<open>isError\<close> set. The handlers of
  resource reads and of prompts have no such \<open>try\<close>: for a resource URI that, once its
  first \<open>project://\<close> is removed, is none of the four resource identifiers (so for
  every \<open>project://id\<close> with an unknown \<open>id\<close>), and for a prompt name outside the
  registry, no error result is returned, and \<open>Error('Unknown resource: id')\<close> and
  \<open>Error('Unknown prompt: name')\<close> are thrown out of the handler.
\<close>

theorem unknown_names:
  "(name \<notin> set tool_names \<longrightarrow>
      callTool e name
        = Returns \<lparr>resp_text = ErrorText (''Error: Unknown tool: '' @ name),
                   resp_isError = True\<rparr>)
   \<and> (replace_first ''project://'' [] uri
         \<notin> set [''structure'', ''package'', ''components'', ''routes''] \<longrightarrow>
      readResource e uri
        = Throws (''Unknown resource: '' @ replace_first ''project://'' [] uri))
   \<and> (rid \<notin> set [''structure'', ''package'', ''components'', ''routes''] \<longrightarrow>
      readResource e (''project://'' @ rid) = Throws (''Unknown resource: '' @ rid))
   \<and> (name \<notin> set prompt_names \<longrightarrow>
      getPromptRequest name args = Throws (''Unknown prompt: '' @ name))"
proof (intro conjI impI)
  assume "name \<notin> set tool_names"
  then show "callTool e name
        = Returns \<lparr>resp_text = ErrorText (''Error: Unknown tool: '' @ name),
                   resp_isError = True\<rparr>"
    by (simp add: tool_names_def callTool_def tool_switch_def)
next
  assume "replace_first ''project://'' [] uri
            \<notin> set [''structure'', ''package'', ''components'', ''routes'']"
  then show "readResource e uri
               = Throws (''Unknown resource: '' @ replace_first ''project://'' [] uri)"
    by (simp add: readResource_def readProjectResource_def Let_def)
next
  assume "rid \<notin> set [''structure'', ''package'', ''components'', ''routes'']"
  then show "readResource e (''project://'' @ rid) = Throws (''Unknown resource: '' @ rid)"
    by (simp add: readResource_def readProjectResource_def Let_def)
next
  assume "name \<notin> set prompt_names"
  then show "getPromptRequest name args = Throws (''Unknown prompt: '' @ name)"
    by (simp add: prompt_names_def getPromptRequest_def getPrompt_def)
qed

theorem unknown_names_witness:
  "''delete_project'' \<notin> set tool_names
   \<and> callTool empty_env ''delete_project''
       = Returns \<lparr>resp_text = ErrorText ''Error: Unknown tool: delete_project'',
                  resp_isError = True\<rparr>
   \<and> replace_first ''project://'' [] ''project://delete_project'' = ''delete_project''
   \<and> readResource empty_env ''project://delete_project''
       = Throws ''Unknown resource: delete_project''
   \<and> ''delete_project'' \<notin> set prompt_names
   \<and> getPromptRequest ''delete_project'' (Some []) = Throws ''Unknown prompt: delete_project''"
proof -
  have a: "''delete_project'' \<notin> set tool_names" by (simp add: tool_names_def)
  have b: "replace_first ''project://'' [] ''project://delete_project'' = ''delete_project''"
    by simp
  have c: "''delete_project'' \<notin> set prompt_names" by (simp add: prompt_names_def)
  have d: "''delete_project'' \<notin> set [''structure'', ''package'', ''components'', ''routes'']"
    by simp
  from unknown_names [of "''delete_project''" empty_env "''project://delete_project''"
                         "''delete_project''" "Some []"]
       a b c d
  show ?thesis by simp
qed

subsection \<open>The scenario\<close>

lemma scenario_project:
  "analyzeProject scenario_env =
     Inr \<lparr>ap_projectPath = ''/project'', ap_packageName = ''Unknown'',
          ap_packageVersion = ''Unknown'', ap_totalFiles = 1, ap_tsx = 1, ap_jsx = 0,
          ap_ts = 0, ap_js = 0, ap_hasReact = True, ap_hasTypeScript = False,
          ap_hasVite = False, ap_hasNext = False, ap_hasTailwind = False,
          ap_hasSupabase = True, ap_timestamp = ''2024-01-01T00:00:00.000Z''\<rparr>"
  by code_simp

lemma scenario_routing:
  "getRoutingStructure scenario_env =
     Inr \<lparr>rs_routingFiles = [''src/App.tsx''], rs_routes = [home_route, home_route],
          rs_totalRoutes = 2, rs_hasReactRouter = True\<rparr>"
  by code_simp

lemma scenario_hooks:
  "getHooksUsage scenario_env =
     Inr \<lparr>hu_totalFiles = 1, hu_analyzedFiles = 1, hu_totalHooksUsage = 1,
          hu_mostUsedHooks = [(''useEffect'', 1)], hu_customHooksFound = [],
          hu_fileUsage = [\<lparr>hf_file = ''src/App.tsx'', hf_builtInHooks = [''useEffect''],
                           hf_customHooks = []\<rparr>]\<rparr>"
  by code_simp

text \<open>
  In the scenario the routing report holds the route fact for \<open>/home\<close> twice, not
  once: the element \<open><Route path="/home">\<close> is matched by the pattern for
  \<open>path=\<close> and again by the pattern for \<open>Route\<close> elements.
\<close>

theorem scenario_routes_counterexample:
  "routes_with_path ''/home'' (getRoutingStructure scenario_env) = 2"
  by (simp add: scenario_routing routes_with_path_def home_route_def)

text \<open>
  Claim C7, as the code has it. In the scenario \<open>analyze_project\<close> returns
  \<open>hasReact = true\<close> and \<open>hasSupabase = true\<close>; \<open>get_routing_structure\<close> returns
  a report with two route facts, both with the path \<open>/home\<close> of the one \<open>Route\<close>
  element (\<open>totalRoutes = 2\<close>); and \<open>get_hooks_usage\<close> counts \<open>useEffect\<close> once.
\<close>

theorem scenario_reports:
  "analyzeProject scenario_env =
     Inr \<lparr>ap_projectPath = ''/project'', ap_packageName = ''Unknown'',
          ap_packageVersion = ''Unknown'', ap_totalFiles = 1, ap_tsx = 1, ap_jsx = 0,
          ap_ts = 0, ap_js = 0, ap_hasReact = True, ap_hasTypeScript = False,
          ap_hasVite = False, ap_hasNext = False, ap_hasTailwind = False,
          ap_hasSupabase = True, ap_timestamp = ''2024-01-01T00:00:00.000Z''\<rparr>
   \<and> getRoutingStructure scenario_env =
     Inr \<lparr>rs_routingFiles = [''src/App.tsx''], rs_routes = [home_route, home_route],
          rs_totalRoutes = 2, rs_hasReactRouter = True\<rparr>
   \<and> getHooksUsage scenario_env =
     Inr \<lparr>hu_totalFiles = 1, hu_analyzedFiles = 1, hu_totalHooksUsage = 1,
          hu_mostUsedHooks = [(''useEffect'', 1)], hu_customHooksFound = [],
          hu_fileUsage = [\<lparr>hf_file = ''src/App.tsx'', hf_builtInHooks = [''useEffect''],
                           hf_customHooks = []\<rparr>]\<rparr>"
  using scenario_project scenario_routing scenario_hooks by simp

subsection \<open>Component names\<close>

text \<open>
  Claim C8 at the file \<open>src/Card.jsx.tsx\<close>: the base name with its extension stripped
  is \<open>Card.jsx\<close>, and the name \<open>get_components\<close> reports is \<open>Card\<close>, since
  \<open>replace('.jsx', '')\<close> removes the first \<open>.jsx\<close> anywhere in what
  \<open>basename(file, '.tsx')\<close> left.
\<close>

theorem component_name_jsx_inside:
  "c_name (component_of ''src/Card.jsx.tsx'' content) = ''Card''
   \<and> spec_component_name ''src/Card.jsx.tsx'' = ''Card.jsx''"
  by (simp add: component_of_def componentName_def basename_def spec_component_name_def
        endsWith_def suffix_to_prefix Let_def)

text \<open>
  Where \<open>.jsx\<close> does not occur inside the name, the code does strip the extension: for a
  base name \<open>stem.tsx\<close> whose stem has no \<open>.jsx\<close> in it, and for a base name
  \<open>stem.jsx\<close> in which no \<open>.jsx\<close> begins inside the stem, the reported name is the
  stem.
\<close>

lemma split_on_not_Nil: "split_on c s \<noteq> []"
  by (induction s) (auto split: list.splits)

lemma length_last_split_on: "length (last (split_on c s)) \<le> length s"
proof (induction s)
  case Nil
  then show ?case by simp
next
  case (Cons x xs)
  show ?case
  proof (cases "split_on c xs")
    case Nil
    with split_on_not_Nil show ?thesis by blast
  next
    case (Cons t ts)
    with Cons.IH show ?thesis by (cases ts) auto
  qed
qed

lemma replace_first_absent:
  "pat \<noteq> [] \<Longrightarrow> \<not> str_includes s pat \<Longrightarrow> replace_first pat rep s = s"
  by (induction s) auto

lemma prefix_shorter:
  assumes "prefix pat (xs @ ys)" and "length pat \<le> length xs"
  shows "prefix pat xs"
  using assms by (auto simp: prefix_append)

lemma replace_first_at_end:
  assumes "pat \<noteq> []" and "\<not> str_includes (s @ butlast pat) pat"
  shows "replace_first pat rep (s @ pat) = s @ rep"
  using assms(2)
proof (induction s)
  case Nil
  with assms(1) show ?case by (cases pat) auto
next
  case (Cons x xs)
  have "\<not> prefix pat (x # xs @ pat)"
  proof
    assume "prefix pat (x # xs @ pat)"
    then have "prefix pat ((x # xs @ butlast pat) @ [last pat])"
      using assms(1) by simp
    moreover have "length pat \<le> length (x # xs @ butlast pat)"
      using assms(1) by simp
    ultimately have "prefix pat (x # xs @ butlast pat)" by (rule prefix_shorter)
    with Cons.prems show False by simp
  qed
  moreover have "\<not> str_includes (xs @ butlast pat) pat"
    using Cons.prems by simp
  ultimately show ?case using Cons.IH by simp
qed

lemma componentName_tsx:
  assumes "last (split_on CHR ''/'' file) = stem @ ''.tsx''" and "stem \<noteq> []"
    and "\<not> str_includes stem ''.jsx''"
  shows "componentName file = stem \<and> spec_component_name file = stem"
proof -
  have l: "length (stem @ ''.tsx'') \<le> length file"
    using length_last_split_on [of "CHR ''/''" "file"] assms(1) by simp
  have n: "file \<noteq> ''.tsx''"
    using assms(1,2) by auto
  have "basename file ''.tsx'' = stem"
    using l n assms(1,2) by (simp add: basename_def Let_def suffix_def)
  then have "componentName file = stem"
    using assms(3) by (simp add: componentName_def replace_first_absent)
  moreover have "spec_component_name file = stem"
    using assms(1) by (simp add: spec_component_name_def endsWith_def suffix_def)
  ultimately show ?thesis by simp
qed

lemma componentName_jsx:
  assumes "last (split_on CHR ''/'' file) = stem @ ''.jsx''"
    and "\<not> str_includes (stem @ ''.js'') ''.jsx''"
  shows "componentName file = stem \<and> spec_component_name file = stem"
proof -
  have n: "file \<noteq> ''.tsx''"
    using assms(1) by auto
  have s: "\<not> suffix ''.tsx'' (stem @ ''.jsx'')"
    by (simp add: suffix_def)
  have "basename file ''.tsx'' = stem @ ''.jsx''"
    using n s assms(1) by (simp add: basename_def Let_def)
  moreover have "replace_first ''.jsx'' [] (stem @ ''.jsx'') = stem"
    using replace_first_at_end [of "''.jsx''" stem "[]"] assms(2) by simp
  ultimately have "componentName file = stem"
    by (simp add: componentName_def)
  moreover have "spec_component_name file = stem"
    using assms(1) by (simp add: spec_component_name_def endsWith_def suffix_def)
  ultimately show ?thesis by simp
qed

subsection \<open>The first twenty component files\<close>

lemma fold_snoc_map: "fold (\<lambda>x acc. acc @ [g x]) xs acc0 = acc0 @ map g xs"
  by (induction xs arbitrary: acc0) simp_all

text \<open>
  Claim C9. \<open>get_components\<close> analyses the first 20 enumerated component files and no
  other: whenever it returns a report, the enumeration has returned the \<open>.tsx\<close>/\<open>.jsx\<close>
  files, \<open>totalComponents\<close> is their number, \<open>analyzed\<close> and the length of
  \<open>components\<close> are the smaller of 20 and that number, the components are those of
  the first 20 paths in order, and so \<open>analyzed\<close> is at most \<open>totalComponents\<close> and
  at most 20. It returns a report whenever the enumeration returns and the first 20 of
  its files can be read.
\<close>

theorem getComponents_first_twenty:
  "(\<forall>componentFiles.
      fg [''**/*.{tsx,jsx}''] std_ignore e = Inr componentFiles
      \<and> first_failure e (take 20 componentFiles) = None
      \<longrightarrow> (\<exists>r. getComponents e = Inr r))
   \<and> (\<forall>r. getComponents e = Inr r \<longrightarrow>
        (\<exists>componentFiles.
           fg [''**/*.{tsx,jsx}''] std_ignore e = Inr componentFiles
           \<and> gc_totalComponents r = length componentFiles
           \<and> gc_analyzed r = min 20 (length componentFiles)
           \<and> length (gc_components r) = min 20 (length componentFiles)
           \<and> map c_path (gc_components r) = take 20 componentFiles
           \<and> gc_analyzed r \<le> gc_totalComponents r
           \<and> gc_analyzed r \<le> 20))"
proof (intro conjI allI impI)
  fix componentFiles
  assume "fg [''**/*.{tsx,jsx}''] std_ignore e = Inr componentFiles
          \<and> first_failure e (take 20 componentFiles) = None"
  then show "\<exists>r. getComponents e = Inr r"
    by (simp add: getComponents_def for_files_success)
next
  fix r
  assume r: "getComponents e = Inr r"
  then obtain cf where cf: "fg [''**/*.{tsx,jsx}''] std_ignore e = Inr cf"
    by (cases "fg [''**/*.{tsx,jsx}''] std_ignore e") (simp_all add: getComponents_def)
  from r cf have eq: "r = \<lparr>gc_totalComponents = length cf,
                        gc_analyzed = length (map (\<lambda>f. component_of f (content_of e f)) (take 20 cf)),
                        gc_components = map (\<lambda>f. component_of f (content_of e f)) (take 20 cf)\<rparr>"
    by (simp add: getComponents_def for_files_first_failure fold_snoc_map
          split: option.splits)
  have "gc_totalComponents r = length cf" by (simp add: eq)
  moreover have "gc_analyzed r = min 20 (length cf)" by (simp add: eq min.commute)
  moreover have "length (gc_components r) = min 20 (length cf)" by (simp add: eq min.commute)
  moreover have "map c_path (gc_components r) = take 20 cf"
    by (simp add: eq component_of_def o_def)
  moreover have "gc_analyzed r \<le> gc_totalComponents r" by (simp add: eq)
  moreover have "gc_analyzed r \<le> 20" by (simp add: eq)
  ultimately
  show "\<exists>componentFiles.
           fg [''**/*.{tsx,jsx}''] std_ignore e = Inr componentFiles
           \<and> gc_totalComponents r = length componentFiles
           \<and> gc_analyzed r = min 20 (length componentFiles)
           \<and> length (gc_components r) = min 20 (length componentFiles)
           \<and> map c_path (gc_components r) = take 20 componentFiles
           \<and> gc_analyzed r \<le> gc_totalComponents r
           \<and> gc_analyzed r \<le> 20"
    using cf by blast
qed

lemma many_components_files:
  "fg [''**/*.{tsx,jsx}''] std_ignore many_components_env
     = Inr (map (\<lambda>c. ''src/'' @ [c] @ ''.tsx'') ''abcdefghijklmnopqrstu'')"
  by code_simp

lemma many_components_readable:
  "first_failure many_components_env
     (take 20 (map (\<lambda>c. ''src/'' @ [c] @ ''.tsx'') ''abcdefghijklmnopqrstu'')) = None"
  by code_simp

theorem getComponents_first_twenty_witness:
  "fg [''**/*.{tsx,jsx}''] std_ignore many_components_env
     = Inr (map (\<lambda>c. ''src/'' @ [c] @ ''.tsx'') ''abcdefghijklmnopqrstu'')
   \<and> first_failure many_components_env
       (take 20 (map (\<lambda>c. ''src/'' @ [c] @ ''.tsx'') ''abcdefghijklmnopqrstu'')) = None
   \<and> (\<exists>r. getComponents many_components_env = Inr r
          \<and> gc_totalComponents r = 21 \<and> gc_analyzed r = 20
          \<and> length (gc_components r) = 20)"
proof -
  note t = getComponents_first_twenty [of many_components_env]
  from t many_components_files many_components_readable
  obtain r where r: "getComponents many_components_env = Inr r"
    by blast
  with t obtain cf where "fg [''**/*.{tsx,jsx}''] std_ignore many_components_env = Inr cf"
    and "gc_totalComponents r = length cf" and "gc_analyzed r = min 20 (length cf)"
    and "length (gc_components r) = min 20 (length cf)"
    by blast
  with many_components_files
  have "gc_totalComponents r = 21 \<and> gc_analyzed r = 20 \<and> length (gc_components r) = 20"
    by simp
  with r many_components_files many_components_readable show ?thesis by blast
qed

subsection \<open>Counter tables and the stable sort\<close>

lemma map_fst_map_set:
  "map fst (map_set k v m) = (if k \<in> fst ` set m then map fst m else map fst m @ [k])"
  by (induction m) force+

lemma map_of_map_set: "map_of (map_set k v m) = (map_of m)(k \<mapsto> v)"
  by (induction m) (auto simp: fun_eq_iff)

lemma map_fst_bump:
  "map fst (bump k n m) = (if k \<in> fst ` set m then map fst m else map fst m @ [k])"
  by (simp add: bump_def map_fst_map_set)

lemma get_or0_bump:
  "get_or0 (bump k n m) k' = (if k' = k then get_or0 m k + n else get_or0 m k')"
  by (simp add: bump_def get_or0_def map_of_map_set)

lemma first_pos_append_in: "k \<in> set xs \<Longrightarrow> first_pos (xs @ ys) k = first_pos xs k"
  by (simp add: first_pos_def takeWhile_append1)

lemma first_pos_lt: "k \<in> set xs \<Longrightarrow> first_pos xs k < length xs"
  by (induction xs) (auto simp: first_pos_def)

lemma first_pos_notin: "k \<notin> set xs \<Longrightarrow> first_pos (xs @ k # ys) k = length xs"
  by (induction xs) (auto simp: first_pos_def)

lemma first_seen_order_step:
  assumes "first_seen_order seen ks"
  shows "first_seen_order (seen @ [k]) (if k \<in> set ks then ks else ks @ [k])"
proof (cases "k \<in> set ks")
  case True
  from assms have d: "distinct ks" and s: "set ks = set seen"
    and o: "sorted_wrt (\<lambda>a b. first_pos seen a < first_pos seen b) ks"
    by (simp_all add: first_seen_order_def)
  have "sorted_wrt (\<lambda>a b. first_pos (seen @ [k]) a < first_pos (seen @ [k]) b) ks"
    using o by (rule sorted_wrt_mono_rel [rotated]) (simp add: s first_pos_append_in)
  with True d s show ?thesis by (auto simp: first_seen_order_def)
next
  case False
  from assms have d: "distinct ks" and s: "set ks = set seen"
    and o: "sorted_wrt (\<lambda>a b. first_pos seen a < first_pos seen b) ks"
    by (simp_all add: first_seen_order_def)
  have o': "sorted_wrt (\<lambda>a b. first_pos (seen @ [k]) a < first_pos (seen @ [k]) b) ks"
    using o by (rule sorted_wrt_mono_rel [rotated]) (simp add: s first_pos_append_in)
  have "\<forall>x\<in>set ks. first_pos (seen @ [k]) x < first_pos (seen @ [k]) k"
    using False s by (simp add: first_pos_append_in first_pos_notin first_pos_lt)
  with False d s o' show ?thesis
    by (auto simp: first_seen_order_def sorted_wrt_append)
qed

lemma first_seen_order_tally:
  "first_seen_order seen (map fst m) \<Longrightarrow>
   first_seen_order (seen @ map fst facts) (map fst (tally facts m))"
proof (induction facts arbitrary: seen m)
  case Nil
  then show ?case by (simp add: tally_def)
next
  case (Cons f facts)
  obtain k n where f: "f = (k, n)" by (cases f)
  have "first_seen_order (seen @ [k]) (map fst (bump k n m))"
    using first_seen_order_step [OF Cons.prems, of k] by (simp add: map_fst_bump)
  from Cons.IH [OF this] show ?case by (simp add: tally_def f)
qed

lemma get_or0_tally: "get_or0 (tally facts m) k = get_or0 m k + weight facts k"
proof (induction facts arbitrary: m)
  case Nil
  then show ?case by (simp add: tally_def weight_def)
next
  case (Cons f facts)
  obtain k' n where f: "f = (k', n)" by (cases f)
  have "get_or0 (tally facts (bump k' n m)) k = get_or0 (bump k' n m) k + weight facts k"
    by (rule Cons.IH)
  then show ?case by (auto simp: tally_def f get_or0_bump weight_def)
qed

lemma tally_append: "tally (xs @ ys) m = tally ys (tally xs m)"
  by (simp add: tally_def)

lemma tally_entries:
  assumes "(k, c) \<in> set (tally facts [])"
  shows "c = weight facts k"
proof -
  have "first_seen_order [] (map fst ([] :: ('a \<times> nat) list))"
    by (simp add: first_seen_order_def)
  from first_seen_order_tally [OF this, of facts]
  have "distinct (map fst (tally facts []))" by (simp add: first_seen_order_def)
  with assms have "map_of (tally facts []) k = Some c" by simp
  then have "get_or0 (tally facts []) k = c" by (simp add: get_or0_def)
  moreover have "get_or0 (tally facts []) k = get_or0 [] k + weight facts k"
    by (rule get_or0_tally)
  moreover have "get_or0 ([] :: ('a \<times> nat) list) k = 0" by (simp add: get_or0_def)
  ultimately show ?thesis by simp
qed

lemma tally_sorted_first_seen:
  "sorted_wrt (\<lambda>a b. first_pos (map fst facts) (fst a) < first_pos (map fst facts) (fst b))
     (tally facts [])"
proof -
  have "first_seen_order [] (map fst ([] :: ('a \<times> nat) list))"
    by (simp add: first_seen_order_def)
  from first_seen_order_tally [OF this, of facts]
  have "sorted_wrt (\<lambda>a b. first_pos (map fst facts) a < first_pos (map fst facts) b)
          (map fst (tally facts []))"
    by (simp add: first_seen_order_def)
  then show ?thesis by (simp add: sorted_wrt_map)
qed

lemma set_insert_by: "set (insert_by cmp x ys) = insert x (set ys)"
  by (induction ys) auto

lemma set_js_sort: "set (js_sort cmp xs) = set xs"
  by (induction xs) (simp_all add: js_sort_def set_insert_by)

lemma length_insert_by: "length (insert_by cmp x ys) = Suc (length ys)"
  by (induction ys) auto

lemma length_js_sort: "length (js_sort cmp xs) = length xs"
  by (induction xs) (simp_all add: js_sort_def length_insert_by)

lemma js_sort_Cons: "js_sort cmp (x # xs) = insert_by cmp x (js_sort cmp xs)"
  by (simp add: js_sort_def)

lemma insert_by_ranked:
  fixes before :: "'k \<times> nat \<Rightarrow> 'k \<times> nat \<Rightarrow> bool"
  assumes "sorted_wrt (\<lambda>a b. snd a > snd b \<or> (snd a = snd b \<and> before a b)) ys"
    and "\<forall>y\<in>set ys. before x y"
  shows "sorted_wrt (\<lambda>a b. snd a > snd b \<or> (snd a = snd b \<and> before a b))
           (insert_by by_count_desc x ys)"
  using assms
proof (induction ys)
  case Nil
  then show ?case by simp
next
  case (Cons y ys)
  show ?case
  proof (cases "by_count_desc x y \<le> 0")
    case True
    then have le: "snd y \<le> snd x" by (simp add: by_count_desc_def)
    have "\<forall>z\<in>set (y # ys). snd z \<le> snd x"
      using Cons.prems(1) le by auto
    with Cons.prems True show ?thesis by (auto simp: le_less)
  next
    case False
    then have "snd x < snd y" by (simp add: by_count_desc_def)
    with Cons False show ?thesis by (auto simp: set_insert_by)
  qed
qed

lemma js_sort_ranked:
  fixes before :: "'k \<times> nat \<Rightarrow> 'k \<times> nat \<Rightarrow> bool"
  assumes "sorted_wrt before xs"
  shows "sorted_wrt (\<lambda>a b. snd a > snd b \<or> (snd a = snd b \<and> before a b))
           (js_sort by_count_desc xs)"
  using assms
proof (induction xs)
  case Nil
  then show ?case by (simp add: js_sort_def)
next
  case (Cons x xs)
  then show ?case
    by (simp add: js_sort_Cons insert_by_ranked set_js_sort)
qed

lemma ranking_of_tally:
  "sorted_wrt (ranked_before facts) (take n (js_sort by_count_desc (tally facts [])))"
proof -
  have "sorted_wrt (ranked_before facts) (js_sort by_count_desc (tally facts []))"
    unfolding ranked_before_def
    by (rule js_sort_ranked [OF tally_sorted_first_seen])
  then show ?thesis by (rule sorted_wrt_take)
qed

lemma tally_Nil: "tally [] m = m"
  by (simp add: tally_def)

lemma tally_Cons: "tally ((k, n) # facts) m = tally facts (bump k n m)"
  by (simp add: tally_def)

lemma hk_builtin_snd:
  "snd (hk_builtin content hook st) =
     (if matches (rx_hook hook) content \<noteq> []
      then bump hook (length (matches (rx_hook hook) content)) (snd st) else snd st)"
  by (cases st) (simp add: Let_def)

lemma hk_custom_snd:
  "snd (hk_custom f hook st) =
     (if hook \<notin> set builtInHooks then bump hook 1 (snd st) else snd st)"
  by (cases st) simp

lemma fold_count_class:
  "fold count_class toks cu =
     tally (map (\<lambda>cls. (cls, 1)) (filter (\<lambda>cls. trim cls \<noteq> [] \<and> length cls > 0) toks)) cu"
  by (induction toks arbitrary: cu) (simp_all add: tally_def count_class_def)

lemma fold_tw_match:
  "fold tw_match ms (cn, cu) =
     (cn @ concat (map classes_of ms), fold count_class (concat (map classes_of ms)) cu)"
  by (induction ms arbitrary: cn cu) simp_all

lemma tw_body_fst: "fst (tw_body f content st) = tally (class_facts content) (fst st)"
  by (cases st) (simp add: fold_tw_match fold_count_class class_facts_def)

lemma fold_tw_body:
  "fst (fold (\<lambda>f. tw_body f (g f)) files st)
     = tally (concat (map (\<lambda>f. class_facts (g f)) files)) (fst st)"
  by (induction files arbitrary: st) (simp_all add: tally_Nil tw_body_fst tally_append)

lemma fold_hk_builtin:
  "snd (fold (hk_builtin content) hooks st)
     = tally (map (\<lambda>hook. (hook, length (matches (rx_hook hook) content)))
                  (filter (\<lambda>hook. matches (rx_hook hook) content \<noteq> []) hooks))
             (snd st)"
  by (induction hooks arbitrary: st) (simp_all add: tally_Nil tally_Cons hk_builtin_snd)

lemma fold_hk_custom:
  "snd (fold (hk_custom f) hooks st)
     = tally (map (\<lambda>hook. (hook, 1)) (filter (\<lambda>hook. hook \<notin> set builtInHooks) hooks)) (snd st)"
  by (induction hooks arbitrary: st) (simp_all add: tally_Nil tally_Cons hk_custom_snd)

lemma hk_body_fst: "fst (hk_body f content st) = tally (hook_facts content) (fst st)"
proof -
  obtain hu ch fu where st: "st = (hu, ch, fu)" by (cases st)
  show ?thesis
    by (simp add: st Let_def fold_hk_custom fold_hk_builtin hook_facts_def tally_append)
qed

lemma fold_hk_body:
  "fst (fold (\<lambda>f. hk_body f (g f)) files st)
     = tally (concat (map (\<lambda>f. hook_facts (g f)) files)) (fst st)"
  by (induction files arbitrary: st) (simp_all add: tally_Nil hk_body_fst tally_append)

lemma tw_report_ranking: "tw_mostUsedClasses (tw_report n st) = sortedClasses (fst st)"
  by (cases st) (simp add: Let_def)

lemma hk_report_ranking: "hu_mostUsedHooks (hk_report n st) = take 20 (sortedHooks (fst st))"
  by (cases st) (simp add: prod.case_eq_if split_beta; cases "snd st"; simp)

lemma tailwind_table:
  assumes "getTailwindUsage e = Inr r"
  shows "tw_mostUsedClasses r = take 30 (js_sort by_count_desc (tally (class_fact_sequence e) []))"
proof -
  let ?files = "take 50 (fg_entries [''**/*.{tsx,jsx,ts,js}''] std_ignore e)"
  let ?st = "fold (\<lambda>f. tw_body f (content_of e f)) ?files ([], [])"
  from assms
  have "r = tw_report (length (fg_entries [''**/*.{tsx,jsx,ts,js}''] std_ignore e)) ?st"
    by (simp add: getTailwindUsage_def fg_def for_files_first_failure split: option.splits)
  then show ?thesis
    by (simp add: tw_report_ranking fold_tw_body class_fact_sequence_def class_facts_by_file_def
          sortedClasses_def)
qed

lemma hooks_table:
  assumes "getHooksUsage e = Inr r"
  shows "hu_mostUsedHooks r = take 20 (js_sort by_count_desc (tally (hook_fact_sequence e) []))"
proof -
  let ?files = "take 50 (fg_entries [''**/*.{tsx,jsx,ts,js}''] std_ignore e)"
  let ?st = "fold (\<lambda>f. hk_body f (content_of e f)) ?files ([], [], [])"
  from assms
  have "r = hk_report (length (fg_entries [''**/*.{tsx,jsx,ts,js}''] std_ignore e)) ?st"
    by (simp add: getHooksUsage_def fg_def for_files_first_failure split: option.splits)
  then show ?thesis
    by (simp add: hk_report_ranking fold_hk_body hook_fact_sequence_def hook_facts_by_file_def
          sortedHooks_def)
qed

lemma ranking_weights:
  assumes "x \<in> set (take n (js_sort by_count_desc (tally facts [])))"
  shows "snd x = weight facts (fst x)"
proof -
  from assms have "x \<in> set (js_sort by_count_desc (tally facts []))"
    by (rule in_set_takeD)
  then have "(fst x, snd x) \<in> set (tally facts [])" by (simp add: set_js_sort)
  then show ?thesis by (rule tally_entries)
qed

lemma first_pos_append_notin:
  "k \<notin> set xs \<Longrightarrow> first_pos (xs @ ys) k = length xs + first_pos ys k"
  by (induction xs) (auto simp: first_pos_def)

lemma first_file_first_pos:
  "first_file fss a < first_file fss b \<Longrightarrow>
   first_pos (map fst (concat fss)) a < first_pos (map fst (concat fss)) b"
proof (induction fss)
  case Nil
  then show ?case by (simp add: first_file_def)
next
  case (Cons fs fss)
  have b: "b \<notin> fst ` set fs"
    using Cons.prems by (auto simp: first_file_def split: if_splits)
  show ?case
  proof (cases "a \<in> fst ` set fs")
    case True
    then have m: "a \<in> set (map fst fs)" by simp
    have "first_pos (map fst fs @ map fst (concat fss)) a < length (map fst fs)"
      unfolding first_pos_append_in [OF m] by (rule first_pos_lt [OF m])
    moreover have "first_pos (map fst fs @ map fst (concat fss)) b
                     = length (map fst fs) + first_pos (map fst (concat fss)) b"
      using b by (simp add: first_pos_append_notin)
    ultimately show ?thesis by simp
  next
    case False
    with b Cons.prems have "first_file fss a < first_file fss b"
      by (simp add: first_file_def)
    from Cons.IH [OF this] False b show ?thesis
      by (simp add: first_pos_append_notin)
  qed
qed

lemma ranked_before_by_file:
  assumes "ranked_before (concat fss) x y"
  shows "ranked_by_file fss x y"
proof (cases "snd y < snd x")
  case True
  then show ?thesis by (simp add: ranked_by_file_def)
next
  case False
  with assms have e: "snd x = snd y"
    and p: "first_pos (map fst (concat fss)) (fst x) < first_pos (map fst (concat fss)) (fst y)"
    by (auto simp: ranked_before_def)
  have "\<not> first_file fss (fst y) < first_file fss (fst x)"
    using first_file_first_pos [of fss "fst y" "fst x"] p by auto
  with e show ?thesis by (simp add: ranked_by_file_def)
qed

subsection \<open>Frequency rankings\<close>

text \<open>
  Claim C5. The ranking of the most used Tailwind classes and the ranking of the most
  used hooks are functions of the fact sequence alone: the first 30 (classes) or 20
  (hooks) entries of the stable descending sort of the counts tallied from the facts in
  order. In each ranking an entry with a higher count stands before one with a lower
  count, two entries with the same count stand in the order in which their keys were
  first met in the fact sequence, hence never against the order of the files in which
  they were first met in the enumerated file sequence, and each count is the sum of the
  key's facts.
\<close>

theorem frequency_rankings_ordered:
  "(\<forall>r. getTailwindUsage e = Inr r \<longrightarrow>
      tw_mostUsedClasses r
        = take 30 (js_sort by_count_desc (tally (class_fact_sequence e) []))
      \<and> sorted_wrt (ranked_before (class_fact_sequence e)) (tw_mostUsedClasses r)
      \<and> sorted_wrt (ranked_by_file (class_facts_by_file e)) (tw_mostUsedClasses r)
      \<and> (\<forall>x\<in>set (tw_mostUsedClasses r). snd x = weight (class_fact_sequence e) (fst x)))
   \<and> (\<forall>r. getHooksUsage e = Inr r \<longrightarrow>
      hu_mostUsedHooks r
        = take 20 (js_sort by_count_desc (tally (hook_fact_sequence e) []))
      \<and> sorted_wrt (ranked_before (hook_fact_sequence e)) (hu_mostUsedHooks r)
      \<and> sorted_wrt (ranked_by_file (hook_facts_by_file e)) (hu_mostUsedHooks r)
      \<and> (\<forall>x\<in>set (hu_mostUsedHooks r). snd x = weight (hook_fact_sequence e) (fst x)))"
proof (intro conjI allI impI)
  fix r
  assume "getTailwindUsage e = Inr r"
  then have t: "tw_mostUsedClasses r
        = take 30 (js_sort by_count_desc (tally (class_fact_sequence e) []))"
    by (rule tailwind_table)
  show "tw_mostUsedClasses r
        = take 30 (js_sort by_count_desc (tally (class_fact_sequence e) []))"
    by (rule t)
  show o: "sorted_wrt (ranked_before (class_fact_sequence e)) (tw_mostUsedClasses r)"
    unfolding t by (rule ranking_of_tally)
  show "sorted_wrt (ranked_by_file (class_facts_by_file e)) (tw_mostUsedClasses r)"
    using o unfolding class_fact_sequence_def
    by (rule sorted_wrt_mono_rel [rotated]) (rule ranked_before_by_file)
  show "\<forall>x\<in>set (tw_mostUsedClasses r). snd x = weight (class_fact_sequence e) (fst x)"
    unfolding t by (blast intro: ranking_weights)
next
  fix r
  assume "getHooksUsage e = Inr r"
  then have t: "hu_mostUsedHooks r
        = take 20 (js_sort by_count_desc (tally (hook_fact_sequence e) []))"
    by (rule hooks_table)
  show "hu_mostUsedHooks r
        = take 20 (js_sort by_count_desc (tally (hook_fact_sequence e) []))"
    by (rule t)
  show o: "sorted_wrt (ranked_before (hook_fact_sequence e)) (hu_mostUsedHooks r)"
    unfolding t by (rule ranking_of_tally)
  show "sorted_wrt (ranked_by_file (hook_facts_by_file e)) (hu_mostUsedHooks r)"
    using o unfolding hook_fact_sequence_def
    by (rule sorted_wrt_mono_rel [rotated]) (rule ranked_before_by_file)
  show "\<forall>x\<in>set (hu_mostUsedHooks r). snd x = weight (hook_fact_sequence e) (fst x)"
    unfolding t by (blast intro: ranking_weights)
qed

lemma ranking_env_classes:
  "map_sum id tw_mostUsedClasses (getTailwindUsage ranking_env)
     = Inr [(''flex'', 2), (''p-4'', 1), (''m-2'', 1)]"
  by code_simp

lemma ranking_env_facts:
  "class_fact_sequence ranking_env = [(''p-4'', 1), (''flex'', 1), (''flex'', 1), (''m-2'', 1)]"
  by code_simp

lemma hooks_env_hooks:
  "map_sum id hu_mostUsedHooks (getHooksUsage hooks_env)
     = Inr [(''useRef'', 2), (''useState'', 1), (''useMemo'', 1)]"
  by code_simp

lemma hooks_env_facts:
  "hook_fact_sequence hooks_env
     = [(''useRef'', 1), (''useState'', 1), (''useMemo'', 1), (''useRef'', 1)]"
  by code_simp

theorem frequency_rankings_ordered_witness:
  "(\<exists>r. getTailwindUsage ranking_env = Inr r
        \<and> tw_mostUsedClasses r = [(''flex'', 2), (''p-4'', 1), (''m-2'', 1)]
        \<and> sorted_wrt (ranked_before (class_fact_sequence ranking_env)) (tw_mostUsedClasses r))
   \<and> class_fact_sequence ranking_env
       = [(''p-4'', 1), (''flex'', 1), (''flex'', 1), (''m-2'', 1)]
   \<and> (\<exists>r. getHooksUsage hooks_env = Inr r
        \<and> hu_mostUsedHooks r = [(''useRef'', 2), (''useState'', 1), (''useMemo'', 1)]
        \<and> sorted_wrt (ranked_before (hook_fact_sequence hooks_env)) (hu_mostUsedHooks r))
   \<and> hook_fact_sequence hooks_env
       = [(''useRef'', 1), (''useState'', 1), (''useMemo'', 1), (''useRef'', 1)]"
proof -
  from ranking_env_classes obtain r where r: "getTailwindUsage ranking_env = Inr r"
    and m: "tw_mostUsedClasses r = [(''flex'', 2), (''p-4'', 1), (''m-2'', 1)]"
    by (cases "getTailwindUsage ranking_env") simp_all
  from hooks_env_hooks obtain h where h: "getHooksUsage hooks_env = Inr h"
    and n: "hu_mostUsedHooks h = [(''useRef'', 2), (''useState'', 1), (''useMemo'', 1)]"
    by (cases "getHooksUsage hooks_env") simp_all
  from frequency_rankings_ordered [of ranking_env] r
  have a: "sorted_wrt (ranked_before (class_fact_sequence ranking_env)) (tw_mostUsedClasses r)"
    by blast
  from frequency_rankings_ordered [of hooks_env] h
  have b: "sorted_wrt (ranked_before (hook_fact_sequence hooks_env)) (hu_mostUsedHooks h)"
    by blast
  from r m a h n b ranking_env_facts hooks_env_facts show ?thesis by blast
qed

subsection \<open>Pattern buckets of the Tailwind report\<close>

lemma sorted_desc_js_sort:
  "sorted_wrt (\<lambda>a b. snd b \<le> snd a) (js_sort by_count_desc (xs :: ('k \<times> nat) list))"
proof -
  have "sorted_wrt (\<lambda>a b. True) xs" by (induction xs) simp_all
  from js_sort_ranked [OF this]
  show ?thesis by (rule sorted_wrt_mono_rel [rotated]) auto
qed

lemma top_by_count:
  fixes xs :: "('k \<times> nat) list"
  assumes "x \<in> set (take n (js_sort by_count_desc xs))" and "y \<in> set xs"
    and "y \<notin> set (take n (js_sort by_count_desc xs))"
  shows "snd y \<le> snd x"
proof -
  let ?s = "js_sort by_count_desc xs"
  have "set ?s = set (take n ?s) \<union> set (drop n ?s)"
    by (metis append_take_drop_id set_append)
  with assms(2,3) have y: "y \<in> set (drop n ?s)" by (simp add: set_js_sort)
  have "sorted_wrt (\<lambda>a b. snd b \<le> snd a) (take n ?s @ drop n ?s)"
    using sorted_desc_js_sort [of xs] by simp
  with assms(1) y show ?thesis unfolding sorted_wrt_append by blast
qed

lemma tw_report_patterns:
  "tw_patterns (tw_report n st) =
     \<lparr>twp_layout = take 10 (filter (\<lambda>(cls, _). test_prefixes tw_prefixes_layout cls)
                               (sortedClasses (fst st))),
      twp_colors = take 10 (filter (\<lambda>(cls, _). test_prefixes tw_prefixes_colors cls)
                               (sortedClasses (fst st))),
      twp_typography = take 10 (filter (\<lambda>(cls, _). test_prefixes tw_prefixes_typography cls)
                                   (sortedClasses (fst st))),
      twp_responsive = take 10 (filter (\<lambda>(cls, _). test_prefixes tw_prefixes_responsive cls)
                                   (sortedClasses (fst st)))\<rparr>"
  by (cases st) (simp add: Let_def)

lemma tailwind_report_of:
  assumes "getTailwindUsage e = Inr r"
  shows "r = tw_report (length (fg_entries [''**/*.{tsx,jsx,ts,js}''] std_ignore e))
              (fold (\<lambda>f. tw_body f (content_of e f))
                    (take 50 (fg_entries [''**/*.{tsx,jsx,ts,js}''] std_ignore e)) ([], []))"
  using assms
  by (simp add: getTailwindUsage_def fg_def for_files_first_failure split: option.splits)

lemma set_take_filter: "set (take n (filter P xs)) \<subseteq> set xs"
  using set_take_subset [of n "filter P xs"] by auto

text \<open>
  Claim C10. In the report of \<open>get_tailwind_usage\<close> the list of most used classes is
  the top 30 by count: at most 30 entries, and no class left out of it has a higher count
  than a class in it. Each of the four pattern buckets is the first 10 entries of that
  list that match the bucket's prefix rule, so every bucket has at most 10 entries, all
  of them among the top 30, and a class outside the top 30 is in no bucket whatever
  prefix it has. A report is returned whenever the enumeration of the source files
  returns and the first 50 of them can be read.
\<close>

theorem tailwind_buckets_within_top_thirty:
  "(\<forall>sourceFiles.
      fg [''**/*.{tsx,jsx,ts,js}''] std_ignore e = Inr sourceFiles
      \<and> first_failure e (take 50 sourceFiles) = None
      \<longrightarrow> (\<exists>r. getTailwindUsage e = Inr r))
   \<and> (\<forall>r. getTailwindUsage e = Inr r \<longrightarrow>
        tw_mostUsedClasses r = take 30 (js_sort by_count_desc (tally (class_fact_sequence e) []))
        \<and> length (tw_mostUsedClasses r) \<le> 30
        \<and> (\<forall>x\<in>set (tw_mostUsedClasses r). \<forall>y\<in>set (tally (class_fact_sequence e) []).
              y \<notin> set (tw_mostUsedClasses r) \<longrightarrow> snd y \<le> snd x)
        \<and> twp_layout (tw_patterns r)
            = take 10 (filter (\<lambda>(cls, _). test_prefixes tw_prefixes_layout cls)
                              (tw_mostUsedClasses r))
        \<and> twp_colors (tw_patterns r)
            = take 10 (filter (\<lambda>(cls, _). test_prefixes tw_prefixes_colors cls)
                              (tw_mostUsedClasses r))
        \<and> twp_typography (tw_patterns r)
            = take 10 (filter (\<lambda>(cls, _). test_prefixes tw_prefixes_typography cls)
                              (tw_mostUsedClasses r))
        \<and> twp_responsive (tw_patterns r)
            = take 10 (filter (\<lambda>(cls, _). test_prefixes tw_prefixes_responsive cls)
                              (tw_mostUsedClasses r))
        \<and> (\<forall>b\<in>set [twp_layout (tw_patterns r), twp_colors (tw_patterns r),
                      twp_typography (tw_patterns r), twp_responsive (tw_patterns r)].
              length b \<le> 10 \<and> set b \<subseteq> set (tw_mostUsedClasses r)))"
proof (intro conjI allI impI)
  fix sourceFiles
  assume "fg [''**/*.{tsx,jsx,ts,js}''] std_ignore e = Inr sourceFiles
          \<and> first_failure e (take 50 sourceFiles) = None"
  then show "\<exists>r. getTailwindUsage e = Inr r"
    by (simp add: getTailwindUsage_def for_files_success)
next
  fix r
  assume r: "getTailwindUsage e = Inr r"
  then show t: "tw_mostUsedClasses r
                  = take 30 (js_sort by_count_desc (tally (class_fact_sequence e) []))"
    by (rule tailwind_table)
  show "length (tw_mostUsedClasses r) \<le> 30" by (simp add: t)
  show "\<forall>x\<in>set (tw_mostUsedClasses r). \<forall>y\<in>set (tally (class_fact_sequence e) []).
          y \<notin> set (tw_mostUsedClasses r) \<longrightarrow> snd y \<le> snd x"
    unfolding t by (blast intro: top_by_count)
  note eq = tailwind_report_of [OF r]
  have m: "tw_mostUsedClasses r
             = sortedClasses (fst (fold (\<lambda>f. tw_body f (content_of e f))
                 (take 50 (fg_entries [''**/*.{tsx,jsx,ts,js}''] std_ignore e)) ([], [])))"
    by (subst eq) (simp add: tw_report_ranking)
  show l: "twp_layout (tw_patterns r)
            = take 10 (filter (\<lambda>(cls, _). test_prefixes tw_prefixes_layout cls)
                              (tw_mostUsedClasses r))"
    unfolding m by (subst eq) (simp add: tw_report_patterns)
  show c: "twp_colors (tw_patterns r)
            = take 10 (filter (\<lambda>(cls, _). test_prefixes tw_prefixes_colors cls)
                              (tw_mostUsedClasses r))"
    unfolding m by (subst eq) (simp add: tw_report_patterns)
  show y: "twp_typography (tw_patterns r)
            = take 10 (filter (\<lambda>(cls, _). test_prefixes tw_prefixes_typography cls)
                              (tw_mostUsedClasses r))"
    unfolding m by (subst eq) (simp add: tw_report_patterns)
  show p: "twp_responsive (tw_patterns r)
            = take 10 (filter (\<lambda>(cls, _). test_prefixes tw_prefixes_responsive cls)
                              (tw_mostUsedClasses r))"
    unfolding m by (subst eq) (simp add: tw_report_patterns)
  show "\<forall>b\<in>set [twp_layout (tw_patterns r), twp_colors (tw_patterns r),
                 twp_typography (tw_patterns r), twp_responsive (tw_patterns r)].
          length b \<le> 10 \<and> set b \<subseteq> set (tw_mostUsedClasses r)"
    by (simp add: l c y p set_take_filter)
qed

lemma top_env_files:
  "fg [''**/*.{tsx,jsx,ts,js}''] std_ignore top_env = Inr [''src/App.tsx'']"
  by code_simp

lemma top_env_readable: "first_failure top_env (take 50 [''src/App.tsx'']) = None"
  by code_simp

lemma top_env_table:
  "tally (class_fact_sequence top_env) [] = map (\<lambda>c. (c, 1)) (thirty_classes @ [''flex''])"
  by code_simp

lemma top_env_ranking:
  "take 30 (js_sort by_count_desc (map (\<lambda>c. (c, 1 :: nat)) (thirty_classes @ [''flex''])))
     = map (\<lambda>c. (c, 1)) thirty_classes"
  by code_simp

lemma flex_is_layout: "test_prefixes tw_prefixes_layout ''flex''"
  by code_simp

lemma flex_not_in_thirty: "(''flex'', 1 :: nat) \<notin> set (map (\<lambda>c. (c, 1)) thirty_classes)"
  by code_simp

theorem tailwind_buckets_within_top_thirty_witness:
  "fg [''**/*.{tsx,jsx,ts,js}''] std_ignore top_env = Inr [''src/App.tsx'']
   \<and> first_failure top_env (take 50 [''src/App.tsx'']) = None
   \<and> (\<exists>r. getTailwindUsage top_env = Inr r
          \<and> tw_mostUsedClasses r = map (\<lambda>c. (c, 1)) thirty_classes
          \<and> (''flex'', 1) \<notin> set (twp_layout (tw_patterns r))
          \<and> length (twp_layout (tw_patterns r)) \<le> 10)
   \<and> test_prefixes tw_prefixes_layout ''flex''
   \<and> (''flex'', 1) \<in> set (tally (class_fact_sequence top_env) [])"
proof -
  note t = tailwind_buckets_within_top_thirty [of top_env]
  from t top_env_files top_env_readable
  obtain r where r: "getTailwindUsage top_env = Inr r"
    by blast
  from t r have "tw_mostUsedClasses r
                   = take 30 (js_sort by_count_desc (tally (class_fact_sequence top_env) []))"
    by blast
  then have m: "tw_mostUsedClasses r = map (\<lambda>c. (c, 1)) thirty_classes"
    by (simp only: top_env_table top_env_ranking)
  from t r have "\<forall>b\<in>set [twp_layout (tw_patterns r), twp_colors (tw_patterns r),
                      twp_typography (tw_patterns r), twp_responsive (tw_patterns r)].
              length b \<le> 10 \<and> set b \<subseteq> set (tw_mostUsedClasses r)"
    by blast
  then have b: "length (twp_layout (tw_patterns r)) \<le> 10"
    and s: "set (twp_layout (tw_patterns r)) \<subseteq> set (tw_mostUsedClasses r)"
    by simp_all
  from s m flex_not_in_thirty have "(''flex'', 1) \<notin> set (twp_layout (tw_patterns r))"
    by auto
  moreover have "(''flex'', 1) \<in> set (tally (class_fact_sequence top_env) [])"
    by (simp add: top_env_table)
  ultimately show ?thesis
    using r m b top_env_files top_env_readable flex_is_layout by blast
qed

end
